theory Spec2Isabelle
  imports Main "HOL-Library.Word"
begin

section \<open>sql2csv: turning database rows into CSV records\<close>

text \<open>
  A shallow embedding of \<^verbatim>\<open>sql2csv.go\<close>. The package drives three external
  collaborators: a \<^verbatim>\<open>*sql.Rows\<close> cursor, an \<^verbatim>\<open>encoding/csv\<close> writer over some
  \<^verbatim>\<open>io.Writer\<close>, and (for \<^verbatim>\<open>WriteFile\<close>) the file system. The cursor is a
  concrete record; the writer and the file system are represented by the sequence of
  calls the package makes on them (\<open>trace\<close>), and whatever they answer is taken from an
  environment record \<open>extern\<close> whose answers may depend on the whole history of calls.
\<close>

subsection \<open>Data\<close>

type_synonym byte = "8 word"

text \<open>A Go \<^verbatim>\<open>rune\<close> is an \<^verbatim>\<open>int32\<close>.\<close>

type_synonym rune = "32 word"

text \<open>
  Go \<^verbatim>\<open>error\<close> values. \<open>InvalidUUID n\<close> is what \<^verbatim>\<open>uuid.FromBytes\<close> returns for \<open>n\<close>
  bytes, \<open>ScanArgCount n m\<close> is \<^verbatim>\<open>database/sql\<close>'s \<^verbatim>\<open>expected n destination arguments
  in Scan, not m\<close>, \<open>ExtError msg\<close> is any error an external collaborator (driver, CSV
  writer, file system) reports.
\<close>

datatype error = InvalidUUID nat | ScanArgCount nat nat | ExtError string

text \<open>
  The dynamic value \<^verbatim>\<open>interface{}\<close> that \<^verbatim>\<open>rows.Scan\<close> stores for one cell:
  \<^verbatim>\<open>nil\<close>, a \<^verbatim>\<open>[]byte\<close>, a \<^verbatim>\<open>time.Time\<close>, a \<^verbatim>\<open>string\<close>, or a value of any other
  dynamic type (\<^verbatim>\<open>int64\<close>, \<^verbatim>\<open>float64\<close>, \<^verbatim>\<open>bool\<close>, ...). Times and the other
  values are opaque to the package, hence type parameters.
\<close>

datatype ('t, 'o) any = VNil | VBytes "byte list" | VTime 't | VString string | VOther 'o

text \<open>Of \<^verbatim>\<open>*sql.ColumnType\<close> the package reads \<^verbatim>\<open>Name()\<close> and \<^verbatim>\<open>DatabaseTypeName()\<close>.\<close>

record column =
  Name :: string
  DatabaseTypeName :: string

text \<open>
  The \<^verbatim>\<open>*sql.Rows\<close> cursor: what \<^verbatim>\<open>ColumnTypes()\<close> answers, the rows not yet
  visited by \<^verbatim>\<open>Next()\<close> (each one either the values the driver delivers, or the error
  \<^verbatim>\<open>Scan\<close> will report for it), and what \<^verbatim>\<open>Err()\<close> answers once \<^verbatim>\<open>Next()\<close> has
  returned false.
\<close>

record ('t, 'o) sql_rows =
  ColumnTypes :: "error + column list"
  pending :: "(error + ('t, 'o) any list) list"
  Err :: "error option"

text \<open>
  \<^verbatim>\<open>CsvRowPostProcessorFunc\<close>. A Go closure may keep state between calls, so the
  function is passed its state \<open>'p\<close> and returns the new one together with
  \<^verbatim>\<open>(outputRow, processedRow)\<close>.
\<close>

type_synonym 'p CsvRowPostProcessorFunc =
  "'p \<Rightarrow> string list \<Rightarrow> column list \<Rightarrow> (bool \<times> string list) \<times> 'p"

text \<open>
  \<^verbatim>\<open>Converter\<close>. Its \<^verbatim>\<open>rows\<close> field is a pointer to the cursor, which lives in the
  \<open>world\<close> below; a \<^verbatim>\<open>nil\<close> post-processor is \<open>None\<close>.
\<close>

record 'p Converter =
  Headers :: "string list"
  WriteHeaders :: bool
  TimeFormat :: string
  Delimiter :: rune
  rowPostProcessor :: "'p CsvRowPostProcessorFunc option"

text \<open>
  The calls made on the CSV writer and on the file system, in order.
  \<open>EmitHeader\<close> is \<^verbatim>\<open>csvWriter.Write(headers)\<close> (line 121), \<open>EmitRow\<close> is
  \<^verbatim>\<open>csvWriter.Write(row)\<close> (line 176), \<open>Flush e\<close> is \<^verbatim>\<open>csvWriter.Flush()\<close> where
  \<open>e\<close> is the error the writer holds afterwards (what \<^verbatim>\<open>csvWriter.Error()\<close> would
  report), \<open>CreateFile\<close> is a successful \<^verbatim>\<open>os.Create\<close>, and \<open>CloseFile name e\<close> is
  \<^verbatim>\<open>f.Close()\<close> returning \<open>e\<close>.
\<close>

datatype event =
    EmitHeader "string list"
  | EmitRow "string list"
  | Flush "error option"
  | CreateFile string
  | CloseFile string "error option"

text \<open>
  The answers of the external collaborators. Those of the CSV writer and the file
  system may depend on the delimiter and on every call made so far.
\<close>

record ('t, 'o) extern =
  sprintf_v :: "('t, 'o) any \<Rightarrow> string"
  time_Format :: "'t \<Rightarrow> string \<Rightarrow> string"
  csv_Write_err :: "rune \<Rightarrow> event list \<Rightarrow> string list \<Rightarrow> error option"
  csv_Flush_err :: "rune \<Rightarrow> event list \<Rightarrow> error option"
  buffer_String :: "rune \<Rightarrow> event list \<Rightarrow> string"
  os_Create_err :: "string \<Rightarrow> event list \<Rightarrow> error option"
  file_Close_err :: "string \<Rightarrow> event list \<Rightarrow> error option"

text \<open>
  The program state a terminal operation runs in: the \<^verbatim>\<open>Converter\<close> object the caller
  holds (the methods have value receivers and copy it on entry), the cursor it points
  to, the calls made so far, and the state of the post-processor closure.
\<close>

record ('t, 'o, 'p) world =
  conv :: "'p Converter"
  rows :: "('t, 'o) sql_rows"
  trace :: "event list"
  pp_state :: 'p

subsection \<open>Bytes, strings and identifiers\<close>

text \<open>Go's conversion \<^verbatim>\<open>string(b)\<close>: the same bytes, read as text.\<close>

definition string_of_bytes :: "byte list \<Rightarrow> string" where
  "string_of_bytes b = map (\<lambda>w. char_of (unat w)) b"

definition bytes_of_string :: "string \<Rightarrow> byte list" where
  "bytes_of_string s = map (\<lambda>c. of_nat (of_char c)) s"

text \<open>
  Modelled from the spec: the \<^verbatim>\<open>github.com/google/uuid\<close> package is not part of the
  sources. \<^verbatim>\<open>uuid.FromBytes\<close> decodes a 16-byte identifier and fails on any other
  length; \<^verbatim>\<open>UUID.String\<close> is the canonical hyphenated hexadecimal form
  \<^verbatim>\<open>xxxxxxxx-xxxx-xxxx-xxxx-xxxxxxxxxxxx\<close> in lower case.
\<close>

definition uuid_FromBytes :: "byte list \<Rightarrow> error + byte list" where
  "uuid_FromBytes b = (if length b = 16 then Inr b else Inl (InvalidUUID (length b)))"

definition hexdigit :: "nat \<Rightarrow> char" where
  "hexdigit n = ''0123456789abcdef'' ! n"

definition hex_byte :: "byte \<Rightarrow> string" where
  "hex_byte w = [hexdigit (unat w div 16), hexdigit (unat w mod 16)]"

definition hex_Encode :: "byte list \<Rightarrow> string" where
  "hex_Encode bs = concat (map hex_byte bs)"

definition uuid_String :: "byte list \<Rightarrow> string" where
  "uuid_String u =
     hex_Encode (take 4 u) @ ''-'' @ hex_Encode (take 2 (drop 4 u)) @ ''-'' @
     hex_Encode (take 2 (drop 6 u)) @ ''-'' @ hex_Encode (take 2 (drop 8 u)) @ ''-'' @
     hex_Encode (drop 10 u)"

subsection \<open>The value stringifier (lines 143 to 169)\<close>

definition stringify_cell ::
  "('t, 'o) extern \<Rightarrow> 'p Converter \<Rightarrow> column \<Rightarrow> ('t, 'o) any \<Rightarrow> error + string" where
  "stringify_cell env c col v =
     (case v of
        VBytes b \<Rightarrow>
          (if DatabaseTypeName col = ''UNIQUEIDENTIFIER''
           then (case uuid_FromBytes b of
                   Inl err \<Rightarrow> Inl err
                 | Inr u \<Rightarrow> Inr (uuid_String u))
           else Inr (string_of_bytes b))
      | _ \<Rightarrow>
          (let val = (if TimeFormat c \<noteq> []
                      then (case v of
                              VTime timeValue \<Rightarrow> VString (time_Format env timeValue (TimeFormat c))
                            | _ \<Rightarrow> v)
                      else v)
           in (case val of
                 VNil \<Rightarrow> Inr []
               | _ \<Rightarrow> Inr (sprintf_v env val))))"

text \<open>
  The inner loop \<^verbatim>\<open>for i, column := range columns\<close>, over the columns paired with
  \<^verbatim>\<open>values[i]\<close>; the first identifier that fails to decode ends it.
\<close>

fun stringify_cells ::
  "('t, 'o) extern \<Rightarrow> 'p Converter \<Rightarrow> (column \<times> ('t, 'o) any) list \<Rightarrow> error + string list" where
  "stringify_cells env c [] = Inr []"
| "stringify_cells env c ((col, v) # cvs) =
     (case stringify_cell env c col v of
        Inl err \<Rightarrow> Inl err
      | Inr s \<Rightarrow>
          (case stringify_cells env c cvs of
             Inl err \<Rightarrow> Inl err
           | Inr ss \<Rightarrow> Inr (s # ss)))"

definition stringify_row ::
  "('t, 'o) extern \<Rightarrow> 'p Converter \<Rightarrow> column list \<Rightarrow> ('t, 'o) any list \<Rightarrow> error + string list" where
  "stringify_row env c columns vals = stringify_cells env c (zip columns vals)"

subsection \<open>The row loop (lines 132 to 182)\<close>

text \<open>
  \<^verbatim>\<open>rows.Scan(valPointers...)\<close> with \<open>count\<close> destinations of type
  \<^verbatim>\<open>*interface{}\<close>: the row's own error if it has one, a complaint if the driver's
  row has another number of values, and otherwise the values as they are.
\<close>

definition rows_Scan ::
  "nat \<Rightarrow> error + ('t, 'o) any list \<Rightarrow> error + ('t, 'o) any list" where
  "rows_Scan count r =
     (case r of
        Inl err \<Rightarrow> Inl err
      | Inr vals \<Rightarrow>
          (if length vals \<noteq> count then Inl (ScanArgCount (length vals) count)
           else Inr vals))"

text \<open>Lines 171 to 174: without a post-processor the row is written as it is.\<close>

definition post_process ::
  "'p Converter \<Rightarrow> column list \<Rightarrow> 'p \<Rightarrow> string list \<Rightarrow> (bool \<times> string list) \<times> 'p" where
  "post_process c columns ps row =
     (case rowPostProcessor c of
        None \<Rightarrow> ((True, row), ps)
      | Some f \<Rightarrow> f ps row columns)"

text \<open>\<^verbatim>\<open>csvWriter.Write(record)\<close>: the call is recorded, the writer answers.\<close>

definition csv_Write ::
  "('t, 'o) extern \<Rightarrow> rune \<Rightarrow> event list \<Rightarrow> (string list \<Rightarrow> event) \<Rightarrow> string list
     \<Rightarrow> error option \<times> event list" where
  "csv_Write env comma tr ev rcd = (csv_Write_err env comma tr rcd, tr @ [ev rcd])"

text \<open>
  \<^verbatim>\<open>for rows.Next() { ... }\<close>: \<^verbatim>\<open>Next()\<close> takes the next pending row. The result is
  the error of an early \<^verbatim>\<open>return err\<close> (\<open>None\<close> when the loop ran until \<^verbatim>\<open>Next()\<close>
  returned false), the rows left in the cursor, the calls made and the post-processor's
  state.
\<close>

fun write_rows ::
  "('t, 'o) extern \<Rightarrow> 'p Converter \<Rightarrow> rune \<Rightarrow> column list
     \<Rightarrow> (error + ('t, 'o) any list) list \<Rightarrow> event list \<Rightarrow> 'p
     \<Rightarrow> error option \<times> (error + ('t, 'o) any list) list \<times> event list \<times> 'p" where
  "write_rows env c comma columns [] tr ps = (None, [], tr, ps)"
| "write_rows env c comma columns (r # rest) tr ps =
     (case rows_Scan (length columns) r of
        Inl err \<Rightarrow> (Some err, rest, tr, ps)
      | Inr vals \<Rightarrow>
          (case stringify_row env c columns vals of
             Inl err \<Rightarrow> (Some err, rest, tr, ps)
           | Inr row \<Rightarrow>
               (case post_process c columns ps row of
                  ((writeRow, row'), ps') \<Rightarrow>
                    (if writeRow
                     then (case csv_Write env comma tr EmitRow row' of
                             (Some err, tr') \<Rightarrow> (Some err, rest, tr', ps')
                           | (None, tr') \<Rightarrow> write_rows env c comma columns rest tr' ps')
                     else write_rows env c comma columns rest tr ps'))))"

subsection \<open>The terminal operations\<close>

text \<open>Lines 99 to 101: the zero rune leaves the writer's default comma in place.\<close>

definition resolve_comma :: "'p Converter \<Rightarrow> rune" where
  "resolve_comma c = (if Delimiter c \<noteq> 0 then Delimiter c else 0x2C)"

text \<open>Lines 111 to 120.\<close>

definition resolve_headers :: "'p Converter \<Rightarrow> column list \<Rightarrow> string list" where
  "resolve_headers c columns =
     (if length (Headers c) > 0 then Headers c else map Name columns)"

text \<open>Lines 108 to 126.\<close>

definition write_headers ::
  "('t, 'o) extern \<Rightarrow> 'p Converter \<Rightarrow> rune \<Rightarrow> column list \<Rightarrow> event list
     \<Rightarrow> error option \<times> event list" where
  "write_headers env c comma columns tr =
     (if WriteHeaders c
      then csv_Write env comma tr EmitHeader (resolve_headers c columns)
      else (None, tr))"

text \<open>\<^verbatim>\<open>func (c Converter) Write(writer io.Writer) error\<close>\<close>

definition Write ::
  "('t, 'o) extern \<Rightarrow> ('t, 'o, 'p) world \<Rightarrow> error option \<times> ('t, 'o, 'p) world" where
  "Write env w =
     (let c = conv w; comma = resolve_comma c in
      case ColumnTypes (rows w) of
        Inl err \<Rightarrow> (Some err, w)
      | Inr columns \<Rightarrow>
          (case write_headers env c comma columns (trace w) of
             (Some err, tr1) \<Rightarrow> (Some err, w\<lparr>trace := tr1\<rparr>)
           | (None, tr1) \<Rightarrow>
               (case write_rows env c comma columns (pending (rows w)) tr1 (pp_state w) of
                  (Some err, pend, tr2, ps) \<Rightarrow>
                    (Some err, w\<lparr>rows := (rows w)\<lparr>pending := pend\<rparr>, trace := tr2, pp_state := ps\<rparr>)
                | (None, pend, tr2, ps) \<Rightarrow>
                    (Err (rows w),
                     w\<lparr>rows := (rows w)\<lparr>pending := pend\<rparr>,
                       trace := tr2 @ [Flush (csv_Flush_err env comma tr2)],
                       pp_state := ps\<rparr>))))"

text \<open>
  \<^verbatim>\<open>func (c Converter) WriteString() (string, error)\<close>: the buffer is fresh, so its
  content is determined by the calls of this conversion alone.
\<close>

definition WriteString ::
  "('t, 'o) extern \<Rightarrow> ('t, 'o, 'p) world \<Rightarrow> (string \<times> error option) \<times> ('t, 'o, 'p) world" where
  "WriteString env w =
     (case Write env w of
        (err, w') \<Rightarrow>
          ((buffer_String env (resolve_comma (conv w)) (drop (length (trace w)) (trace w')), err),
           w'))"

text \<open>\<^verbatim>\<open>func (c Converter) String() string\<close>\<close>

definition String ::
  "('t, 'o) extern \<Rightarrow> ('t, 'o, 'p) world \<Rightarrow> string \<times> ('t, 'o, 'p) world" where
  "String env w =
     (case WriteString env w of
        ((s, Some err), w') \<Rightarrow> ([], w')
      | ((s, None), w') \<Rightarrow> (s, w'))"

text \<open>\<^verbatim>\<open>func (c Converter) WriteFile(csvFileName string) error\<close>\<close>

definition WriteFile ::
  "('t, 'o) extern \<Rightarrow> string \<Rightarrow> ('t, 'o, 'p) world \<Rightarrow> error option \<times> ('t, 'o, 'p) world" where
  "WriteFile env csvFileName w =
     (case os_Create_err env csvFileName (trace w) of
        Some err \<Rightarrow> (Some err, w)
      | None \<Rightarrow>
          (case Write env (w\<lparr>trace := trace w @ [CreateFile csvFileName]\<rparr>) of
             (Some err, w') \<Rightarrow>
               (Some err,
                w'\<lparr>trace := trace w' @
                     [CloseFile csvFileName (file_Close_err env csvFileName (trace w'))]\<rparr>)
           | (None, w') \<Rightarrow>
               (file_Close_err env csvFileName (trace w'),
                w'\<lparr>trace := trace w' @
                     [CloseFile csvFileName (file_Close_err env csvFileName (trace w'))]\<rparr>)))"

text \<open>\<^verbatim>\<open>NewConverter\<close> and the one mutator with a pointer receiver.\<close>

definition NewConverter :: "'p Converter" where
  "NewConverter =
     \<lparr>Headers = [], WriteHeaders = True, TimeFormat = [], Delimiter = 0x2C,
      rowPostProcessor = None\<rparr>"

definition SetRowPostProcessor ::
  "'p CsvRowPostProcessorFunc \<Rightarrow> ('t, 'o, 'p) world \<Rightarrow> ('t, 'o, 'p) world" where
  "SetRowPostProcessor processor w = w\<lparr>conv := (conv w)\<lparr>rowPostProcessor := Some processor\<rparr>\<rparr>"

subsection \<open>Notions used in the statements\<close>

fun is_header :: "event \<Rightarrow> bool" where
  "is_header (EmitHeader h) = True"
| "is_header ev = False"

fun is_flush :: "event \<Rightarrow> bool" where
  "is_flush (Flush e) = True"
| "is_flush ev = False"

fun is_file_event :: "event \<Rightarrow> bool" where
  "is_file_event (CreateFile name) = True"
| "is_file_event (CloseFile name e) = True"
| "is_file_event ev = False"

text \<open>The number of fields an event hands to the CSV writer, if it hands it a record.\<close>

fun field_count :: "event \<Rightarrow> nat option" where
  "field_count (EmitHeader h) = Some (length h)"
| "field_count (EmitRow r) = Some (length r)"
| "field_count ev = None"

definition is_hexdigit :: "char \<Rightarrow> bool" where
  "is_hexdigit ch = (ch \<in> set ''0123456789abcdef'')"

text \<open>One source row, scanned and stringified: lines 139 to 169.\<close>

definition scan_and_stringify ::
  "('t, 'o) extern \<Rightarrow> 'p Converter \<Rightarrow> column list \<Rightarrow> error + ('t, 'o) any list
     \<Rightarrow> error + string list" where
  "scan_and_stringify env c columns r =
     (case rows_Scan (length columns) r of
        Inl err \<Rightarrow> Inl err
      | Inr vals \<Rightarrow> stringify_row env c columns vals)"

text \<open>
  What a post-processor is expected to produce from the stringified rows: it is called
  once on each row, in order, its state passing from call to call; a row it answers
  \<open>False\<close> for is dropped, otherwise the row it returns is the output.
\<close>

fun run_post_processor ::
  "'p CsvRowPostProcessorFunc \<Rightarrow> column list \<Rightarrow> 'p \<Rightarrow> string list list
     \<Rightarrow> string list list \<times> 'p" where
  "run_post_processor f columns ps [] = ([], ps)"
| "run_post_processor f columns ps (row # srows) =
     (case f ps row columns of
        ((emit, row'), ps') \<Rightarrow>
          (case run_post_processor f columns ps' srows of
             (out, ps'') \<Rightarrow> ((if emit then [row'] else []) @ out, ps'')))"

text \<open>The post-processing of a list of stringified rows, installed or not.\<close>

fun post_process_all ::
  "'p Converter \<Rightarrow> column list \<Rightarrow> 'p \<Rightarrow> string list list \<Rightarrow> string list list \<times> 'p" where
  "post_process_all c columns ps [] = ([], ps)"
| "post_process_all c columns ps (row # srows) =
     (case post_process c columns ps row of
        ((emit, row'), ps') \<Rightarrow>
          (case post_process_all c columns ps' srows of
             (out, ps'') \<Rightarrow> ((if emit then [row'] else []) @ out, ps'')))"

text \<open>
  What a terminal operation adds to the trace.
\<close>

definition new_events :: "('t, 'o, 'p) world \<Rightarrow> ('t, 'o, 'p) world \<Rightarrow> event list" where
  "new_events w w' = drop (length (trace w)) (trace w')"

text \<open>
  The numbers of fields of the records an event hands over: \<open>hn\<close> for a header,
  \<open>n\<close> for a data row.
\<close>

fun fields_ok :: "nat \<Rightarrow> nat \<Rightarrow> event \<Rightarrow> bool" where
  "fields_ok hn n (EmitHeader h) = (length h = hn)"
| "fields_ok hn n (EmitRow r) = (length r = n)"
| "fields_ok hn n ev = True"

text \<open>
  The writer accepts each of these records in turn, starting from the trace \<open>tr\<close>.
\<close>

fun writes_accepted ::
  "('t, 'o) extern \<Rightarrow> rune \<Rightarrow> event list \<Rightarrow> string list list \<Rightarrow> bool" where
  "writes_accepted env comma tr [] = True"
| "writes_accepted env comma tr (row # out) =
     (csv_Write_err env comma tr row = None \<and>
      writes_accepted env comma (tr @ [EmitRow row]) out)"

text \<open>
  What one run of the row loop has done when it stops, in terms of the number \<open>n\<close> of
  rows it stringified and their texts \<open>srows\<close>. These rows were post-processed in order
  and the surviving records written. Either the cursor is exhausted and every write was
  accepted; or row \<open>n\<close> failed to scan or decode with the error returned, after writes
  that were all accepted; or the last of the \<open>n\<close> rows was to be written and the writer
  refused it with the error returned, having accepted all records before it.
\<close>

definition loop_outcome ::
  "('t, 'o) extern \<Rightarrow> 'p Converter \<Rightarrow> rune \<Rightarrow> column list
     \<Rightarrow> (error + ('t, 'o) any list) list \<Rightarrow> event list \<Rightarrow> 'p
     \<Rightarrow> error option \<Rightarrow> (error + ('t, 'o) any list) list \<Rightarrow> event list \<Rightarrow> 'p
     \<Rightarrow> nat \<Rightarrow> string list list \<Rightarrow> bool" where
  "loop_outcome env c comma columns pend tr ps r pend' tr' ps' n srows =
     (n \<le> length pend \<and>
      map (scan_and_stringify env c columns) (take n pend) = map Inr srows \<and>
      tr' = tr @ map EmitRow (fst (post_process_all c columns ps srows)) \<and>
      ps' = snd (post_process_all c columns ps srows) \<and>
      (case r of
         None \<Rightarrow>
           n = length pend \<and> pend' = [] \<and>
           writes_accepted env comma tr (fst (post_process_all c columns ps srows))
       | Some e \<Rightarrow>
           (n < length pend \<and> scan_and_stringify env c columns (pend ! n) = Inl e \<and>
            pend' = drop (Suc n) pend \<and>
            writes_accepted env comma tr (fst (post_process_all c columns ps srows))) \<or>
           (0 < n \<and> pend' = drop n pend \<and>
            fst (post_process_all c columns ps srows) \<noteq> [] \<and>
            butlast (fst (post_process_all c columns ps srows)) =
              fst (post_process_all c columns ps (butlast srows)) \<and>
            writes_accepted env comma tr
              (butlast (fst (post_process_all c columns ps srows))) \<and>
            csv_Write_err env comma
              (tr @ map EmitRow (butlast (fst (post_process_all c columns ps srows))))
              (last (fst (post_process_all c columns ps srows))) = Some e)))"

subsection \<open>The fixture of the package's tests\<close>

text \<open>
  The test suite's table \<^verbatim>\<open>people\<close> with the row \<^verbatim>\<open>Alice, 1, 1973-11-29\<close>. Times and
  other values stand for themselves as the text \<^verbatim>\<open>%v\<close> prints; the writer never fails,
  and the buffer holds the records (fields joined, one per line) once they are flushed.
\<close>

definition csv_line :: "rune \<Rightarrow> string list \<Rightarrow> string" where
  "csv_line comma fs =
     (case fs of
        [] \<Rightarrow> []
      | f # gs \<Rightarrow> f @ concat (map (\<lambda>g. char_of (unat comma) # g) gs)) @ [CHR 0x0A]"

fun csv_text :: "rune \<Rightarrow> event \<Rightarrow> string" where
  "csv_text comma (EmitHeader h) = csv_line comma h"
| "csv_text comma (EmitRow r) = csv_line comma r"
| "csv_text comma ev = []"

definition test_env :: "(string, string) extern" where
  "test_env =
     \<lparr>sprintf_v = (\<lambda>v. case v of
                       VNil \<Rightarrow> ''<nil>''
                     | VBytes b \<Rightarrow> string_of_bytes b
                     | VTime t \<Rightarrow> t
                     | VString s \<Rightarrow> s
                     | VOther s \<Rightarrow> s),
      time_Format = (\<lambda>t layout. ''9:33PM''),
      csv_Write_err = (\<lambda>comma tr rcd. None),
      csv_Flush_err = (\<lambda>comma tr. None),
      buffer_String = (\<lambda>comma tr.
         if list_ex is_flush tr then concat (map (csv_text comma) tr) else []),
      os_Create_err = (\<lambda>name tr. None),
      file_Close_err = (\<lambda>name tr. None)\<rparr>"

definition people_columns :: "column list" where
  "people_columns =
     [\<lparr>Name = ''name'', DatabaseTypeName = ''STRING''\<rparr>,
      \<lparr>Name = ''age'', DatabaseTypeName = ''INT32''\<rparr>,
      \<lparr>Name = ''bdate'', DatabaseTypeName = ''DATETIME''\<rparr>]"

definition alice :: "(string, string) any list" where
  "alice = [VString ''Alice'', VOther ''1'', VTime ''1973-11-29 21:33:09 +0000 UTC'']"

definition test_rows :: "(string, string) sql_rows" where
  "test_rows = \<lparr>ColumnTypes = Inr people_columns, pending = [Inr alice], Err = None\<rparr>"

definition test_world :: "'p \<Rightarrow> (string, string, 'p) world" where
  "test_world ps = \<lparr>conv = NewConverter, rows = test_rows, trace = [], pp_state = ps\<rparr>"

text \<open>The same table on a connection that breaks after the first row.\<close>

definition lost_connection :: "(string, string, unit) world" where
  "lost_connection =
     (test_world ())\<lparr>rows := test_rows\<lparr>Err := Some (ExtError ''connection lost'')\<rparr>\<rparr>"

text \<open>
  A post-processor in the manner of the tests (\<^verbatim>\<open>[]string{rows[0], "X", "X"}\<close>), which
  also drops Bob and counts its calls; three rows for it; a cursor whose second row
  fails to scan; a table with a \<^verbatim>\<open>UNIQUEIDENTIFIER\<close> column whose second row holds three
  bytes; a file system that refuses one path and never closes cleanly; a header override
  of two names for the three columns.
\<close>

definition x_out :: "nat CsvRowPostProcessorFunc" where
  "x_out calls row columns = ((take 1 row \<noteq> [''Bob''], take 1 row @ [''X'', ''X'']), Suc calls)"

definition three_people :: "(error + (string, string) any list) list" where
  "three_people =
     [Inr alice,
      Inr [VString ''Bob'', VOther ''2'', VNil],
      Inr [VString ''Carol'', VOther ''3'', VBytes [0x34, 0x32]]]"

definition scan_fails :: "(string, string, unit) world" where
  "scan_fails =
     (test_world ())\<lparr>rows := test_rows\<lparr>pending := [Inr alice, Inl (ExtError ''sql: Rows are closed'')]\<rparr>\<rparr>"

definition id_columns :: "column list" where
  "id_columns =
     [\<lparr>Name = ''name'', DatabaseTypeName = ''STRING''\<rparr>,
      \<lparr>Name = ''id'', DatabaseTypeName = ''UNIQUEIDENTIFIER''\<rparr>]"

definition alice_id :: "byte list" where
  "alice_id = [1, 2, 3, 4, 5, 6, 7, 8, 9, 10, 11, 12, 13, 14, 15, 255]"

definition bob_row :: "(string, string) any list" where
  "bob_row = [VString ''Bob'', VBytes [1, 2, 3]]"

definition id_world :: "(string, string, unit) world" where
  "id_world =
     \<lparr>conv = NewConverter,
      rows = \<lparr>ColumnTypes = Inr id_columns,
               pending = [Inr [VString ''Alice'', VBytes alice_id],
                          Inr bob_row,
                          Inr [VString ''Carol'', VNil]],
               Err = None\<rparr>,
      trace = [], pp_state = ()\<rparr>"

definition flaky_files :: "(string, string) extern" where
  "flaky_files =
     test_env\<lparr>os_Create_err := (\<lambda>name tr. if name = ''/proc/out.csv''
                                        then Some (ExtError ''permission denied'') else None),
              file_Close_err := (\<lambda>name tr. Some (ExtError ''close failed''))\<rparr>"

definition two_headers :: "(string, string, unit) world" where
  "two_headers = (test_world ())\<lparr>conv := NewConverter\<lparr>Headers := [''Name'', ''Age'']\<rparr>\<rparr>"

text \<open>
  A writer that accepts one record and then reports a full disk, and a cursor that is
  closed under the loop after its first row.
\<close>

definition full_disk :: "(string, string) extern" where
  "full_disk =
     test_env\<lparr>csv_Write_err := (\<lambda>comma tr rcd. if tr = [] then None
                                             else Some (ExtError ''disk full''))\<rparr>"

definition closed_early :: "(error + (string, string) any list) list" where
  "closed_early = [Inr alice, Inl (ExtError ''sql: Rows are closed''), Inr alice]"

section \<open>Properties\<close>

subsection \<open>Bytes and identifiers\<close>

lemma byte_roundtrip: "word_of_nat (unat (w :: byte) mod 256) = w"
proof -
  have "unat w < 256" using unsigned_less [of w] by simp
  then show ?thesis by simp
qed

lemma bytes_of_string_of_bytes: "bytes_of_string (string_of_bytes b) = b"
  by (induction b) (simp_all add: bytes_of_string_def string_of_bytes_def of_char_of byte_roundtrip)

lemma length_hex_Encode: "length (hex_Encode bs) = 2 * length bs"
  by (induction bs) (simp_all add: hex_Encode_def hex_byte_def)

lemma length_uuid_String: "length u = 16 \<Longrightarrow> length (uuid_String u) = 36"
  by (simp add: uuid_String_def length_hex_Encode)

lemma hexdigit_is_hexdigit: "n < 16 \<Longrightarrow> is_hexdigit (hexdigit n)"
  unfolding is_hexdigit_def hexdigit_def by (rule nth_mem) simp

lemma hex_Encode_digits: "ch \<in> set (hex_Encode bs) \<Longrightarrow> is_hexdigit ch"
proof (induction bs)
  case Nil
  then show ?case by (simp add: hex_Encode_def)
next
  case (Cons b bs)
  have "unat b < 256" using unsigned_less [of b] by simp
  then have "unat b div 16 < 16" by arith
  then show ?case using Cons
    by (auto simp: hex_Encode_def hex_byte_def hexdigit_is_hexdigit)
qed

lemma uuid_String_hyphens:
  assumes "length u = 16"
  shows "uuid_String u ! 8 = CHR ''-''" "uuid_String u ! 13 = CHR ''-''" "uuid_String u ! 18 = CHR ''-''" "uuid_String u ! 23 = CHR ''-''"
  using assms by (simp_all add: uuid_String_def nth_append length_hex_Encode)

lemma hex_Encode_append: "hex_Encode (xs @ ys) = hex_Encode xs @ hex_Encode ys"
  by (simp add: hex_Encode_def)

lemma hex_Encode_no_hyphen: "filter (\<lambda>ch. ch \<noteq> CHR ''-'') (hex_Encode bs) = hex_Encode bs"
proof -
  have "\<forall>ch \<in> set (hex_Encode bs). ch \<noteq> CHR ''-''"
    using hex_Encode_digits [of _ bs] by (auto simp: is_hexdigit_def)
  then show ?thesis by simp
qed

lemma uuid_split: "take 4 u @ take 2 (drop 4 u) @ take 2 (drop 6 u) @ take 2 (drop 8 u) @ drop 10 u = u"
proof -
  have "take 2 (drop 8 u) @ drop 10 u = drop 8 u"
    using append_take_drop_id [of 2 "drop 8 u"] by simp
  moreover have "take 2 (drop 6 u) @ drop 8 u = drop 6 u"
    using append_take_drop_id [of 2 "drop 6 u"] by simp
  moreover have "take 2 (drop 4 u) @ drop 6 u = drop 4 u"
    using append_take_drop_id [of 2 "drop 4 u"] by simp
  ultimately show ?thesis by simp
qed

lemma uuid_String_hex: "filter (\<lambda>ch. ch \<noteq> CHR ''-'') (uuid_String u) = hex_Encode u"
proof -
  have "filter (\<lambda>ch. ch \<noteq> CHR ''-'') (uuid_String u) =
        hex_Encode (take 4 u @ take 2 (drop 4 u) @ take 2 (drop 6 u) @ take 2 (drop 8 u) @ drop 10 u)"
    by (simp add: uuid_String_def hex_Encode_no_hyphen hex_Encode_append)
  then show ?thesis by (simp only: uuid_split)
qed

subsection \<open>The row loop\<close>

lemma rows_Scan_Inr: "rows_Scan n r = Inr vals \<Longrightarrow> r = Inr vals \<and> length vals = n"
  by (auto simp: rows_Scan_def split: sum.splits if_splits)

lemma stringify_cells_length: "stringify_cells env c cvs = Inr ss \<Longrightarrow> length ss = length cvs"
  by (induction cvs arbitrary: ss) (auto split: sum.splits)

lemma stringify_row_length:
  "stringify_row env c columns vals = Inr row \<Longrightarrow> length vals = length columns \<Longrightarrow>
     length row = length columns"
  by (auto simp: stringify_row_def dest: stringify_cells_length)

lemma scan_and_stringify_length:
  "scan_and_stringify env c columns r = Inr row \<Longrightarrow> length row = length columns"
  by (auto simp: scan_and_stringify_def split: sum.splits
      dest!: rows_Scan_Inr dest: stringify_row_length)

text \<open>One turn of the loop, by the outcome of its four steps.\<close>

lemma write_rows_scan_fails:
  "scan_and_stringify env c columns r = Inl err \<Longrightarrow>
     write_rows env c comma columns (r # rest) tr ps = (Some err, rest, tr, ps)"
  by (auto simp: scan_and_stringify_def split: sum.splits)

lemma write_rows_skip:
  "scan_and_stringify env c columns r = Inr row \<Longrightarrow>
   post_process c columns ps row = ((False, row'), ps') \<Longrightarrow>
     write_rows env c comma columns (r # rest) tr ps = write_rows env c comma columns rest tr ps'"
  by (auto simp: scan_and_stringify_def split: sum.splits)

lemma write_rows_emit_fails:
  "scan_and_stringify env c columns r = Inr row \<Longrightarrow>
   post_process c columns ps row = ((True, row'), ps') \<Longrightarrow>
   csv_Write_err env comma tr row' = Some err \<Longrightarrow>
     write_rows env c comma columns (r # rest) tr ps = (Some err, rest, tr @ [EmitRow row'], ps')"
  by (auto simp: scan_and_stringify_def csv_Write_def split: sum.splits)

lemma write_rows_emit:
  "scan_and_stringify env c columns r = Inr row \<Longrightarrow>
   post_process c columns ps row = ((True, row'), ps') \<Longrightarrow>
   csv_Write_err env comma tr row' = None \<Longrightarrow>
     write_rows env c comma columns (r # rest) tr ps =
     write_rows env c comma columns rest (tr @ [EmitRow row']) ps'"
  by (auto simp: scan_and_stringify_def csv_Write_def split: sum.splits)

declare write_rows.simps(2) [simp del]

lemma post_process_all_None:
  "rowPostProcessor c = None \<Longrightarrow> post_process_all c columns ps srows = (srows, ps)"
  by (induction srows) (simp_all add: post_process_def)

lemma post_process_all_Some:
  "rowPostProcessor c = Some f \<Longrightarrow>
     post_process_all c columns ps srows = run_post_processor f columns ps srows"
  by (induction srows arbitrary: ps) (simp_all add: post_process_def split: prod.splits)

lemma write_rows_run:
  "write_rows env c comma columns pend tr ps = (r, pend', tr', ps') \<Longrightarrow>
     \<exists>n srows. n \<le> length pend \<and>
       map (scan_and_stringify env c columns) (take n pend) = map Inr srows \<and>
       (r = None \<longrightarrow> n = length pend \<and> pend' = []) \<and>
       tr' = tr @ map EmitRow (fst (post_process_all c columns ps srows)) \<and>
       ps' = snd (post_process_all c columns ps srows)"
proof (induction pend arbitrary: tr ps)
  case Nil
  then show ?case by auto
next
  case (Cons x rest)
  show ?case
  proof (cases "scan_and_stringify env c columns x")
    case (Inl err)
    with Cons.prems have "tr' = tr" "ps' = ps" "r = Some err"
      by (simp_all add: write_rows_scan_fails)
    then have "0 \<le> length (x # rest) \<and>
       map (scan_and_stringify env c columns) (take 0 (x # rest)) = map Inr [] \<and>
       (r = None \<longrightarrow> 0 = length (x # rest) \<and> pend' = []) \<and>
       tr' = tr @ map EmitRow (fst (post_process_all c columns ps [])) \<and>
       ps' = snd (post_process_all c columns ps [])"
      by simp
    then show ?thesis by blast
  next
    case (Inr row)
    obtain emit row' ps1 where pp: "post_process c columns ps row = ((emit, row'), ps1)"
      by (metis surj_pair)
    show ?thesis
    proof (cases emit)
      case False
      with Inr pp Cons.prems
      have "write_rows env c comma columns rest tr ps1 = (r, pend', tr', ps')"
        by (simp add: write_rows_skip)
      from Cons.IH [OF this] obtain n srows where
        n: "n \<le> length rest"
        and m: "map (scan_and_stringify env c columns) (take n rest) = map Inr srows"
        and e: "r = None \<longrightarrow> n = length rest \<and> pend' = []"
        and t: "tr' = tr @ map EmitRow (fst (post_process_all c columns ps1 srows))"
        and s: "ps' = snd (post_process_all c columns ps1 srows)"
        by blast
      have "Suc n \<le> length (x # rest) \<and>
         map (scan_and_stringify env c columns) (take (Suc n) (x # rest)) = map Inr (row # srows) \<and>
         (r = None \<longrightarrow> Suc n = length (x # rest) \<and> pend' = []) \<and>
         tr' = tr @ map EmitRow (fst (post_process_all c columns ps (row # srows))) \<and>
         ps' = snd (post_process_all c columns ps (row # srows))"
        using n m e t s Inr pp False by (simp split: prod.splits)
      then show ?thesis by blast
    next
      case True
      show ?thesis
      proof (cases "csv_Write_err env comma tr row'")
        case (Some err)
        with Inr pp True Cons.prems
        have "r = Some err" "tr' = tr @ [EmitRow row']" "ps' = ps1"
          by (simp_all add: write_rows_emit_fails)
        then have "Suc 0 \<le> length (x # rest) \<and>
           map (scan_and_stringify env c columns) (take (Suc 0) (x # rest)) = map Inr [row] \<and>
           (r = None \<longrightarrow> Suc 0 = length (x # rest) \<and> pend' = []) \<and>
           tr' = tr @ map EmitRow (fst (post_process_all c columns ps [row])) \<and>
           ps' = snd (post_process_all c columns ps [row])"
          using Inr pp True by simp
        then show ?thesis by blast
      next
        case None
        with Inr pp True Cons.prems
        have "write_rows env c comma columns rest (tr @ [EmitRow row']) ps1 = (r, pend', tr', ps')"
          by (simp add: write_rows_emit)
        from Cons.IH [OF this] obtain n srows where
          n: "n \<le> length rest"
          and m: "map (scan_and_stringify env c columns) (take n rest) = map Inr srows"
          and e: "r = None \<longrightarrow> n = length rest \<and> pend' = []"
          and t: "tr' = (tr @ [EmitRow row']) @ map EmitRow (fst (post_process_all c columns ps1 srows))"
          and s: "ps' = snd (post_process_all c columns ps1 srows)"
          by blast
        have "Suc n \<le> length (x # rest) \<and>
           map (scan_and_stringify env c columns) (take (Suc n) (x # rest)) = map Inr (row # srows) \<and>
           (r = None \<longrightarrow> Suc n = length (x # rest) \<and> pend' = []) \<and>
           tr' = tr @ map EmitRow (fst (post_process_all c columns ps (row # srows))) \<and>
           ps' = snd (post_process_all c columns ps (row # srows))"
          using n m e t s Inr pp True by (simp split: prod.splits)
        then show ?thesis by blast
      qed
    qed
  qed
qed

lemma write_rows_append:
  "write_rows env c comma columns pre tr ps = (None, p', tr1, ps1) \<Longrightarrow>
     write_rows env c comma columns (pre @ suf) tr ps = write_rows env c comma columns suf tr1 ps1"
proof (induction pre arbitrary: tr ps)
  case Nil
  then show ?case by simp
next
  case (Cons x pre)
  show ?case
  proof (cases "scan_and_stringify env c columns x")
    case (Inl err)
    with Cons.prems show ?thesis by (simp add: write_rows_scan_fails)
  next
    case (Inr row)
    obtain emit row' ps' where pp: "post_process c columns ps row = ((emit, row'), ps')"
      by (metis surj_pair)
    show ?thesis
    proof (cases emit)
      case False
      with Inr pp Cons show ?thesis by (simp add: write_rows_skip)
    next
      case True
      show ?thesis
      proof (cases "csv_Write_err env comma tr row'")
        case None
        with Inr pp True Cons show ?thesis by (simp add: write_rows_emit)
      next
        case (Some err)
        with Inr pp True Cons.prems show ?thesis by (simp add: write_rows_emit_fails)
      qed
    qed
  qed
qed

lemma write_rows_events:
  assumes "write_rows env c comma columns pend tr ps = (r, pend', tr', ps')"
  shows "\<exists>rs. tr' = tr @ map EmitRow rs \<and>
           (rowPostProcessor c = None \<longrightarrow> (\<forall>row \<in> set rs. length row = length columns))"
proof -
  from write_rows_run [OF assms] obtain n srows where
    m: "map (scan_and_stringify env c columns) (take n pend) = map Inr srows"
    and t: "tr' = tr @ map EmitRow (fst (post_process_all c columns ps srows))"
    by blast
  have "length row = length columns" if "row \<in> set srows" for row
  proof -
    from that have "Inr row \<in> set (map (scan_and_stringify env c columns) (take n pend))"
      by (simp add: m)
    then obtain x where "scan_and_stringify env c columns x = Inr row"
      by auto
    then show ?thesis by (rule scan_and_stringify_length)
  qed
  with t show ?thesis
    by (auto simp: post_process_all_None)
qed

lemma write_rows_exhausted:
  "write_rows env c comma columns pend tr ps = (None, pend', tr', ps') \<Longrightarrow> pend' = []"
  by (drule write_rows_run) auto

lemma write_headers_trace:
  "write_headers env c comma columns tr = (r, tr1) \<Longrightarrow>
     tr1 = tr @ (if WriteHeaders c then [EmitHeader (resolve_headers c columns)] else [])"
  by (auto simp: write_headers_def csv_Write_def split: if_splits)

lemma write_headers_disabled:
  "\<not> WriteHeaders c \<Longrightarrow> write_headers env c comma columns tr = (None, tr)"
  by (simp add: write_headers_def)

text \<open>The four ways out of \<open>Write\<close>.\<close>

lemma Write_metadata_fails:
  "ColumnTypes (rows w) = Inl e \<Longrightarrow> Write env w = (Some e, w)"
  by (simp add: Write_def)

lemma Write_header_fails:
  "ColumnTypes (rows w) = Inr columns \<Longrightarrow>
   write_headers env (conv w) (resolve_comma (conv w)) columns (trace w) = (Some e, tr1) \<Longrightarrow>
     Write env w = (Some e, w\<lparr>trace := tr1\<rparr>)"
  by (simp add: Write_def)

lemma Write_loop_aborts:
  "ColumnTypes (rows w) = Inr columns \<Longrightarrow>
   write_headers env (conv w) (resolve_comma (conv w)) columns (trace w) = (None, tr1) \<Longrightarrow>
   write_rows env (conv w) (resolve_comma (conv w)) columns (pending (rows w)) tr1 (pp_state w) =
     (Some e, pend, tr2, ps) \<Longrightarrow>
     Write env w = (Some e, w\<lparr>rows := (rows w)\<lparr>pending := pend\<rparr>, trace := tr2, pp_state := ps\<rparr>)"
  by (simp add: Write_def)

lemma Write_loop_exhausted:
  "ColumnTypes (rows w) = Inr columns \<Longrightarrow>
   write_headers env (conv w) (resolve_comma (conv w)) columns (trace w) = (None, tr1) \<Longrightarrow>
   write_rows env (conv w) (resolve_comma (conv w)) columns (pending (rows w)) tr1 (pp_state w) =
     (None, pend, tr2, ps) \<Longrightarrow>
     Write env w =
       (Err (rows w),
        w\<lparr>rows := (rows w)\<lparr>pending := pend\<rparr>,
          trace := tr2 @ [Flush (csv_Flush_err env (resolve_comma (conv w)) tr2)],
          pp_state := ps\<rparr>)"
  by (simp add: Write_def)

text \<open>What a call of \<open>Write\<close> adds to the trace.\<close>

lemma Write_trace:
  assumes "ColumnTypes (rows w) = Inr columns"
  shows "\<exists>rs fl. trace (snd (Write env w)) =
           trace w @ (if WriteHeaders (conv w)
                      then [EmitHeader (resolve_headers (conv w) columns)] else []) @
           map EmitRow rs @ fl \<and>
           (fl = [] \<or> fl = [Flush (csv_Flush_err env (resolve_comma (conv w))
              (trace w @ (if WriteHeaders (conv w)
                      then [EmitHeader (resolve_headers (conv w) columns)] else []) @
               map EmitRow rs))]) \<and>
           (rowPostProcessor (conv w) = None \<longrightarrow> (\<forall>row \<in> set rs. length row = length columns))"
proof -
  define hs where "hs = (if WriteHeaders (conv w)
                      then [EmitHeader (resolve_headers (conv w) columns)] else [])"
  define comma where "comma = resolve_comma (conv w)"
  have goal: "\<exists>rs fl. trace (snd (Write env w)) = trace w @ hs @ map EmitRow rs @ fl \<and>
           (fl = [] \<or> fl = [Flush (csv_Flush_err env comma (trace w @ hs @ map EmitRow rs))]) \<and>
           (rowPostProcessor (conv w) = None \<longrightarrow> (\<forall>row \<in> set rs. length row = length columns))"
  proof -
    obtain r1 tr1 where h: "write_headers env (conv w) (resolve_comma (conv w)) columns (trace w) = (r1, tr1)"
      by (cases "write_headers env (conv w) (resolve_comma (conv w)) columns (trace w)")
    have t1: "tr1 = trace w @ hs"
      using write_headers_trace [OF h] by (simp add: hs_def)
    show ?thesis
    proof (cases r1)
      case (Some e)
      have "Write env w = (Some e, w\<lparr>trace := tr1\<rparr>)"
        by (rule Write_header_fails [OF assms h [unfolded Some]])
      then have tr: "trace (snd (Write env w)) = trace w @ hs @ map EmitRow [] @ []"
        by (simp add: t1)
      show ?thesis
      proof (intro exI conjI)
        show "trace (snd (Write env w)) = trace w @ hs @ map EmitRow [] @ []" by (fact tr)
      qed simp_all
    next
      case None
      obtain r2 pend tr2 ps where l: "write_rows env (conv w) (resolve_comma (conv w)) columns
          (pending (rows w)) tr1 (pp_state w) = (r2, pend, tr2, ps)"
        by (rule prod_cases4)
      from write_rows_events [OF l] obtain rs where
        both: "tr2 = tr1 @ map EmitRow rs \<and>
          (rowPostProcessor (conv w) = None \<longrightarrow> (\<forall>row \<in> set rs. length row = length columns))"
        by (elim exE)
      from both have t2: "tr2 = tr1 @ map EmitRow rs"
        by (rule conjunct1)
      from both have len: "rowPostProcessor (conv w) = None \<longrightarrow> (\<forall>row \<in> set rs. length row = length columns)"
        by (rule conjunct2)
      show ?thesis
      proof (cases r2)
        case (Some e)
        have "Write env w =
            (Some e, w\<lparr>rows := (rows w)\<lparr>pending := pend\<rparr>, trace := tr2, pp_state := ps\<rparr>)"
          by (rule Write_loop_aborts [OF assms h [unfolded None] l [unfolded Some]])
        then have tr: "trace (snd (Write env w)) = trace w @ hs @ map EmitRow rs @ []"
          by (simp add: t1 t2)
        show ?thesis
        proof (intro exI conjI)
          show "trace (snd (Write env w)) = trace w @ hs @ map EmitRow rs @ []" by (fact tr)
          show "rowPostProcessor (conv w) = None \<longrightarrow> (\<forall>row \<in> set rs. length row = length columns)"
            by (fact len)
        qed simp
      next
        case None2: None
        have "Write env w =
            (Err (rows w), w\<lparr>rows := (rows w)\<lparr>pending := pend\<rparr>,
               trace := tr2 @ [Flush (csv_Flush_err env (resolve_comma (conv w)) tr2)],
               pp_state := ps\<rparr>)"
          by (rule Write_loop_exhausted [OF assms h [unfolded None] l [unfolded None2]])
        then have tr: "trace (snd (Write env w)) = trace w @ hs @ map EmitRow rs @
            [Flush (csv_Flush_err env comma (trace w @ hs @ map EmitRow rs))]"
          by (simp add: t1 t2 comma_def)
        show ?thesis
        proof (intro exI conjI)
          show "trace (snd (Write env w)) = trace w @ hs @ map EmitRow rs @
            [Flush (csv_Flush_err env comma (trace w @ hs @ map EmitRow rs))]" by (fact tr)
          show "rowPostProcessor (conv w) = None \<longrightarrow> (\<forall>row \<in> set rs. length row = length columns)"
            by (fact len)
        qed simp
      qed
    qed
  qed
  then show ?thesis
    unfolding hs_def comma_def .
qed

lemma no_header_in_rows: "\<not> list_ex is_header (map EmitRow rs)"
  by (induction rs) simp_all

section \<open>The claims\<close>

subsection \<open>The value stringifier\<close>

text \<open>
  C2. A cell whose scanned value is \<^verbatim>\<open>nil\<close> is rendered as the empty string, never as
  the text \<^verbatim>\<open>null\<close>, whatever the column's declared database type, the time format
  and the generic formatter are.
\<close>

theorem nil_is_empty_string:
  "stringify_cell env c col VNil = Inr [] \<and> stringify_cell env c col VNil \<noteq> Inr ''null''"
  by (simp add: stringify_cell_def)

text \<open>
  C3. A cell whose scanned value is a byte sequence, in a column whose declared type is
  not \<^verbatim>\<open>UNIQUEIDENTIFIER\<close>, is rendered as those very bytes read as text: the field
  has the bytes of the value, whatever the time format and the generic formatter are,
  and a byte sequence of length zero gives the empty field by this rule.
\<close>

theorem bytes_verbatim:
  "DatabaseTypeName col \<noteq> ''UNIQUEIDENTIFIER'' \<Longrightarrow>
     stringify_cell env c col (VBytes b) = Inr (string_of_bytes b) \<and>
     bytes_of_string (string_of_bytes b) = b \<and>
     stringify_cell env c col (VBytes []) = Inr []"
proof -
  assume "DatabaseTypeName col \<noteq> ''UNIQUEIDENTIFIER''"
  then have cell: "stringify_cell env c col (VBytes x) = Inr (string_of_bytes x)" for x
    by (simp add: stringify_cell_def)
  have "string_of_bytes [] = []"
    by (simp add: string_of_bytes_def)
  with cell [of b] cell [of "[]"] show ?thesis
    by (simp add: bytes_of_string_of_bytes)
qed

theorem bytes_verbatim_witness:
  "stringify_cell test_env (NewConverter :: unit Converter)
     \<lparr>Name = ''name'', DatabaseTypeName = ''STRING''\<rparr> (VBytes [0x41, 0x6C, 0xFF]) =
     Inr [CHR ''A'', CHR ''l'', CHR 0xFF] \<and>
   bytes_of_string [CHR ''A'', CHR ''l'', CHR 0xFF] = [0x41, 0x6C, 0xFF] \<and>
   stringify_cell test_env (NewConverter :: unit Converter)
     \<lparr>Name = ''name'', DatabaseTypeName = ''STRING''\<rparr> (VBytes []) = Inr []"
proof -
  have s: "string_of_bytes [0x41, 0x6C, 0xFF] = [CHR ''A'', CHR ''l'', CHR 0xFF]"
    by code_simp
  have "DatabaseTypeName \<lparr>Name = ''name'', DatabaseTypeName = ''STRING''\<rparr> \<noteq> ''UNIQUEIDENTIFIER''"
    by simp
  from bytes_verbatim [OF this, of test_env "NewConverter :: unit Converter" "[0x41, 0x6C, 0xFF]"] show ?thesis
    unfolding s .
qed

subsection \<open>Evaluation\<close>

lemmas run_defs =
  Write_def WriteString_def String_def WriteFile_def resolve_comma_def write_headers_def
  resolve_headers_def csv_Write_def rows_Scan_def stringify_row_def stringify_cell_def
  uuid_FromBytes_def post_process_def write_rows.simps scan_and_stringify_def

lemmas loop_defs =
  resolve_comma_def write_headers_def resolve_headers_def csv_Write_def rows_Scan_def
  stringify_row_def stringify_cell_def uuid_FromBytes_def post_process_def write_rows.simps

lemmas fixture_defs =
  test_env_def test_world_def test_rows_def alice_def people_columns_def NewConverter_def

lemma no_header_in_flush: "fl = [] \<or> fl = [Flush e] \<Longrightarrow> \<not> list_ex is_header fl"
  by auto

lemma Write_conv: "conv (snd (Write env w)) = conv w"
  by (simp add: Write_def Let_def split: sum.splits prod.splits option.splits)

text \<open>
  The expectations of the package's tests: \<^verbatim>\<open>TestWriteString\<close>, \<^verbatim>\<open>TestWriteHeaders\<close>
  and \<^verbatim>\<open>TestSetRowPostProcessorOmittingRows\<close>.
\<close>

lemma comma_char: "char_of (44 :: nat) = CHR '',''"
  by code_simp

lemma TestWriteString:
  "fst (WriteString test_env (test_world ())) =
     (''name,age,bdate'' @ [CHR 0x0A] @ ''Alice,1,1973-11-29 21:33:09 +0000 UTC'' @ [CHR 0x0A],
      None)"
  by (simp add: run_defs fixture_defs csv_line_def comma_char)

lemma TestWriteHeaders:
  "fst (String test_env ((test_world ())\<lparr>conv := NewConverter\<lparr>WriteHeaders := False\<rparr>\<rparr>)) =
     ''Alice,1,1973-11-29 21:33:09 +0000 UTC'' @ [CHR 0x0A]"
  by (simp add: run_defs fixture_defs csv_line_def comma_char)

lemma TestSetRowPostProcessorOmittingRows:
  "fst (String test_env
     ((test_world ())\<lparr>conv := NewConverter
        \<lparr>rowPostProcessor := Some (\<lambda>ps row columnTypes. ((False, []), ps))\<rparr>\<rparr>)) =
     ''name,age,bdate'' @ [CHR 0x0A]"
  by (simp add: run_defs fixture_defs csv_line_def comma_char)

subsection \<open>Headers\<close>

text \<open>
  C1. A call of \<open>Write\<close> with \<^verbatim>\<open>WriteHeaders\<close> set hands the CSV writer exactly one
  header record, before any data record: the first call it makes is the header, with
  \<^verbatim>\<open>Headers\<close> as its content when that is not empty and the columns' names in column
  order otherwise, and no later call is a header. (When \<^verbatim>\<open>ColumnTypes()\<close> fails there is
  no metadata and the call makes no call on the writer at all.) With \<^verbatim>\<open>WriteHeaders\<close>
  unset no header record is handed over, so the first record is the first data row.
\<close>

theorem header_row_first:
  "(WriteHeaders (conv w) \<longrightarrow>
      (case ColumnTypes (rows w) of
         Inl e \<Rightarrow> trace (snd (Write env w)) = trace w
       | Inr columns \<Rightarrow>
           (\<exists>evs. trace (snd (Write env w)) =
              trace w @ EmitHeader (if Headers (conv w) \<noteq> [] then Headers (conv w)
                                    else map Name columns) # evs \<and>
              \<not> list_ex is_header evs))) \<and>
   (\<not> WriteHeaders (conv w) \<longrightarrow>
      (\<exists>evs. trace (snd (Write env w)) = trace w @ evs \<and> \<not> list_ex is_header evs))"
proof (cases "ColumnTypes (rows w)")
  case (Inl e)
  then have "trace (snd (Write env w)) = trace w @ []"
    by (simp add: Write_metadata_fails)
  moreover have "\<not> list_ex is_header []"
    by simp
  ultimately have "\<exists>evs. trace (snd (Write env w)) = trace w @ evs \<and> \<not> list_ex is_header evs"
    by (rule_tac x = "[]" in exI) (rule conjI)
  with Inl show ?thesis
    by (simp add: Write_metadata_fails)
next
  case (Inr columns)
  from Write_trace [OF Inr, of env] obtain rs fl where
    all: "trace (snd (Write env w)) =
           trace w @ (if WriteHeaders (conv w)
                      then [EmitHeader (resolve_headers (conv w) columns)] else []) @
           map EmitRow rs @ fl \<and>
           (fl = [] \<or> fl = [Flush (csv_Flush_err env (resolve_comma (conv w))
              (trace w @ (if WriteHeaders (conv w)
                      then [EmitHeader (resolve_headers (conv w) columns)] else []) @
               map EmitRow rs))]) \<and>
           (rowPostProcessor (conv w) = None \<longrightarrow> (\<forall>row \<in> set rs. length row = length columns))"
    by (elim exE)
  from all have tr: "trace (snd (Write env w)) =
           trace w @ (if WriteHeaders (conv w)
                      then [EmitHeader (resolve_headers (conv w) columns)] else []) @
           map EmitRow rs @ fl"
    by (rule conjunct1)
  from all have "\<not> list_ex is_header fl"
    by (intro no_header_in_flush) (rule conjunct1 [OF conjunct2])
  then have nh: "\<not> list_ex is_header (map EmitRow rs @ fl)"
    using no_header_in_rows [of rs] by simp
  show ?thesis
  proof (cases "WriteHeaders (conv w)")
    case True
    with tr have "trace (snd (Write env w)) =
        trace w @ EmitHeader (if Headers (conv w) \<noteq> [] then Headers (conv w)
                              else map Name columns) # (map EmitRow rs @ fl)"
      by (simp add: resolve_headers_def)
    with nh have "\<exists>evs. trace (snd (Write env w)) =
        trace w @ EmitHeader (if Headers (conv w) \<noteq> [] then Headers (conv w)
                              else map Name columns) # evs \<and> \<not> list_ex is_header evs"
      by (rule_tac x = "map EmitRow rs @ fl" in exI) (rule conjI)
    with True Inr show ?thesis by simp
  next
    case False
    with tr have "trace (snd (Write env w)) = trace w @ (map EmitRow rs @ fl)"
      by simp
    with nh have "\<exists>evs. trace (snd (Write env w)) = trace w @ evs \<and> \<not> list_ex is_header evs"
      by (rule_tac x = "map EmitRow rs @ fl" in exI) (rule conjI)
    with False show ?thesis by simp
  qed
qed

theorem header_row_first_witness:
  "WriteHeaders (conv (test_world ())) \<and>
   (\<exists>evs. trace (snd (Write test_env (test_world ()))) =
      EmitHeader [''name'', ''age'', ''bdate''] # evs \<and> \<not> list_ex is_header evs) \<and>
   (\<exists>evs. trace (snd (Write test_env
        ((test_world ())\<lparr>conv := NewConverter\<lparr>Headers := [''Name'', ''Age'', ''Birthday'']\<rparr>\<rparr>))) =
      EmitHeader [''Name'', ''Age'', ''Birthday''] # evs \<and> \<not> list_ex is_header evs) \<and>
   \<not> WriteHeaders (conv ((test_world ())\<lparr>conv := NewConverter\<lparr>WriteHeaders := False\<rparr>\<rparr>)) \<and>
   (\<exists>evs. trace (snd (Write test_env
        ((test_world ())\<lparr>conv := NewConverter\<lparr>WriteHeaders := False\<rparr>\<rparr>))) = evs \<and>
      \<not> list_ex is_header evs)"
  using header_row_first [of "test_world ()" test_env]
    header_row_first [of "(test_world ())\<lparr>conv := NewConverter\<lparr>Headers := [''Name'', ''Age'', ''Birthday'']\<rparr>\<rparr>" test_env]
    header_row_first [of "(test_world ())\<lparr>conv := NewConverter\<lparr>WriteHeaders := False\<rparr>\<rparr>" test_env]
  by (simp add: fixture_defs)

subsection \<open>The end of the loop\<close>

text \<open>
  C6. When the row loop runs until \<^verbatim>\<open>rows.Next()\<close> returns false, \<open>Write\<close> returns what
  \<^verbatim>\<open>rows.Err()\<close> answers, error or not; the cursor is exhausted, and the last call on
  the writer is the \<^verbatim>\<open>Flush\<close>, after every row the loop emitted.
\<close>

theorem terminal_error_after_flush:
  assumes "ColumnTypes (rows w) = Inr columns"
    and "write_headers env (conv w) (resolve_comma (conv w)) columns (trace w) = (None, tr1)"
    and "write_rows env (conv w) (resolve_comma (conv w)) columns (pending (rows w)) tr1
           (pp_state w) = (None, pend, tr2, ps)"
  shows "fst (Write env w) = Err (rows w) \<and>
         pending (rows (snd (Write env w))) = [] \<and>
         (\<exists>rs. tr2 = tr1 @ map EmitRow rs \<and>
            trace (snd (Write env w)) =
              tr1 @ map EmitRow rs @
              [Flush (csv_Flush_err env (resolve_comma (conv w)) (tr1 @ map EmitRow rs))])"
proof -
  note W = Write_loop_exhausted [OF assms]
  have p: "pend = []"
    using assms(3) by (rule write_rows_exhausted)
  from write_rows_events [OF assms(3)] obtain rs where
    both: "tr2 = tr1 @ map EmitRow rs \<and>
      (rowPostProcessor (conv w) = None \<longrightarrow> (\<forall>row \<in> set rs. length row = length columns))"
    by (elim exE)
  then have t2: "tr2 = tr1 @ map EmitRow rs"
    by (rule conjunct1)
  have "tr2 = tr1 @ map EmitRow rs \<and>
        trace (snd (Write env w)) =
          tr1 @ map EmitRow rs @
          [Flush (csv_Flush_err env (resolve_comma (conv w)) (tr1 @ map EmitRow rs))]"
    using t2 by (simp add: W)
  then have "\<exists>rs. tr2 = tr1 @ map EmitRow rs \<and>
        trace (snd (Write env w)) =
          tr1 @ map EmitRow rs @
          [Flush (csv_Flush_err env (resolve_comma (conv w)) (tr1 @ map EmitRow rs))]"
    by (rule exI)
  then show ?thesis
    by (simp add: W p)
qed

theorem terminal_error_after_flush_witness:
  "Write test_env lost_connection =
     (Some (ExtError ''connection lost''),
      lost_connection\<lparr>rows := (rows lost_connection)\<lparr>pending := []\<rparr>,
        trace := [EmitHeader [''name'', ''age'', ''bdate''],
                  EmitRow [''Alice'', ''1'', ''1973-11-29 21:33:09 +0000 UTC''],
                  Flush None]\<rparr>) \<and>
   fst (Write test_env lost_connection) = Err (rows lost_connection) \<and>
   pending (rows (snd (Write test_env lost_connection))) = [] \<and>
   (\<exists>rs. [EmitHeader [''name'', ''age'', ''bdate''],
          EmitRow [''Alice'', ''1'', ''1973-11-29 21:33:09 +0000 UTC'']] =
         [EmitHeader [''name'', ''age'', ''bdate'']] @ map EmitRow rs \<and>
      trace (snd (Write test_env lost_connection)) =
        [EmitHeader [''name'', ''age'', ''bdate'']] @ map EmitRow rs @
        [Flush (csv_Flush_err test_env (resolve_comma (conv lost_connection))
           ([EmitHeader [''name'', ''age'', ''bdate'']] @ map EmitRow rs))])"
proof -
  have c: "ColumnTypes (rows lost_connection) = Inr people_columns"
    by (simp add: lost_connection_def fixture_defs)
  have h: "write_headers test_env (conv lost_connection) (resolve_comma (conv lost_connection))
      people_columns (trace lost_connection) = (None, [EmitHeader [''name'', ''age'', ''bdate'']])"
    by (simp add: lost_connection_def run_defs fixture_defs)
  have l: "write_rows test_env (conv lost_connection) (resolve_comma (conv lost_connection))
      people_columns (pending (rows lost_connection)) [EmitHeader [''name'', ''age'', ''bdate'']]
      (pp_state lost_connection) =
      (None, [], [EmitHeader [''name'', ''age'', ''bdate''],
                  EmitRow [''Alice'', ''1'', ''1973-11-29 21:33:09 +0000 UTC'']], ())"
    by (simp add: lost_connection_def run_defs fixture_defs)
  have r: "Write test_env lost_connection =
     (Some (ExtError ''connection lost''),
      lost_connection\<lparr>rows := (rows lost_connection)\<lparr>pending := []\<rparr>,
        trace := [EmitHeader [''name'', ''age'', ''bdate''],
                  EmitRow [''Alice'', ''1'', ''1973-11-29 21:33:09 +0000 UTC''],
                  Flush None]\<rparr>)"
    by (simp add: lost_connection_def run_defs fixture_defs)
  from terminal_error_after_flush [OF c h l] r show ?thesis
    by (intro conjI) (rule r, simp_all only: simp_thms)
qed

subsection \<open>The converter\<close>

text \<open>
  C10. The \<^verbatim>\<open>Converter\<close> the caller holds (\<^verbatim>\<open>Headers\<close>, \<^verbatim>\<open>WriteHeaders\<close>,
  \<^verbatim>\<open>TimeFormat\<close>, \<^verbatim>\<open>Delimiter\<close> and the post-processor) is the same after
  \<open>Write\<close>, \<open>WriteString\<close>, \<open>String\<close> and \<open>WriteFile\<close> as before.
\<close>

theorem converter_unchanged:
  "conv (snd (Write env w)) = conv w \<and>
   conv (snd (WriteString env w)) = conv w \<and>
   conv (snd (String env w)) = conv w \<and>
   conv (snd (WriteFile env csvFileName w)) = conv w"
proof -
  have S: "conv (snd (WriteString env w)) = conv w"
    using Write_conv [of env w] by (auto simp: WriteString_def split: prod.splits)
  have "conv (snd (String env w)) = conv w"
    using S by (auto simp: String_def split: prod.splits option.splits)
  moreover have "conv (snd (WriteFile env csvFileName w)) = conv w"
    using Write_conv [of env "w\<lparr>trace := trace w @ [CreateFile csvFileName]\<rparr>"]
    by (auto simp: WriteFile_def split: prod.splits option.splits)
  ultimately show ?thesis using Write_conv [of env w] S by simp
qed

theorem converter_unchanged_witness:
  "conv (snd (Write test_env (test_world (0 :: nat)))) = NewConverter \<and>
   conv (snd (WriteString test_env (test_world (0 :: nat)))) = NewConverter \<and>
   conv (snd (String test_env (test_world (0 :: nat)))) = NewConverter \<and>
   conv (snd (WriteFile test_env ''out.csv'' (test_world (0 :: nat)))) = NewConverter \<and>
   conv (SetRowPostProcessor x_out (test_world 0)) = NewConverter\<lparr>rowPostProcessor := Some x_out\<rparr>"
  using converter_unchanged [of test_env "test_world (0 :: nat)" "''out.csv''"]
  by (simp add: test_world_def SetRowPostProcessor_def)

subsection \<open>Identifiers\<close>

lemma stringify_cell_uuid:
  "DatabaseTypeName col = ''UNIQUEIDENTIFIER'' \<Longrightarrow>
     stringify_cell env c col (VBytes b) =
       (if length b = 16 then Inr (uuid_String b) else Inl (InvalidUUID (length b)))"
  by (simp add: stringify_cell_def uuid_FromBytes_def)

lemma stringify_cell_Inl:
  "stringify_cell env c col v = Inl err \<Longrightarrow>
     \<exists>b. v = VBytes b \<and> DatabaseTypeName col = ''UNIQUEIDENTIFIER'' \<and> length b \<noteq> 16 \<and>
         err = InvalidUUID (length b)"
  by (cases v) (auto simp: stringify_cell_def uuid_FromBytes_def split: if_splits any.splits)

lemma stringify_cells_malformed:
  "i < length cvs \<Longrightarrow> cvs ! i = (col, VBytes b) \<Longrightarrow>
   DatabaseTypeName col = ''UNIQUEIDENTIFIER'' \<Longrightarrow> length b \<noteq> 16 \<Longrightarrow>
     \<exists>j b'. j \<le> i \<and> snd (cvs ! j) = VBytes b' \<and>
        DatabaseTypeName (fst (cvs ! j)) = ''UNIQUEIDENTIFIER'' \<and> length b' \<noteq> 16 \<and>
        stringify_cells env c cvs = Inl (InvalidUUID (length b'))"
proof (induction cvs arbitrary: i)
  case Nil
  then show ?case by simp
next
  case (Cons cv cvs)
  obtain col0 v0 where cv: "cv = (col0, v0)"
    by (rule prod.exhaust)
  show ?case
  proof (cases "stringify_cell env c col0 v0")
    case (Inl err)
    from stringify_cell_Inl [OF Inl] obtain b0 where
      "v0 = VBytes b0 \<and> DatabaseTypeName col0 = ''UNIQUEIDENTIFIER'' \<and> length b0 \<noteq> 16 \<and>
       err = InvalidUUID (length b0)"
      by (elim exE)
    with Inl cv have "0 \<le> i \<and> snd ((cv # cvs) ! 0) = VBytes b0 \<and>
        DatabaseTypeName (fst ((cv # cvs) ! 0)) = ''UNIQUEIDENTIFIER'' \<and> length b0 \<noteq> 16 \<and>
        stringify_cells env c (cv # cvs) = Inl (InvalidUUID (length b0))"
      by simp
    then show ?thesis by (intro exI)
  next
    case (Inr s)
    show ?thesis
    proof (cases i)
      case 0
      with Cons.prems cv have "stringify_cell env c col0 v0 = Inl (InvalidUUID (length b))"
        by (simp add: stringify_cell_uuid)
      with Inr show ?thesis by simp
    next
      case (Suc k)
      with Cons.prems have "k < length cvs" "cvs ! k = (col, VBytes b)"
        by simp_all
      from Cons.IH [OF this Cons.prems(3,4)] obtain j b' where
        IH: "j \<le> k \<and> snd (cvs ! j) = VBytes b' \<and>
          DatabaseTypeName (fst (cvs ! j)) = ''UNIQUEIDENTIFIER'' \<and> length b' \<noteq> 16 \<and>
          stringify_cells env c cvs = Inl (InvalidUUID (length b'))"
        by (elim exE)
      with Inr cv Suc have "Suc j \<le> i \<and> snd ((cv # cvs) ! Suc j) = VBytes b' \<and>
          DatabaseTypeName (fst ((cv # cvs) ! Suc j)) = ''UNIQUEIDENTIFIER'' \<and> length b' \<noteq> 16 \<and>
          stringify_cells env c (cv # cvs) = Inl (InvalidUUID (length b'))"
        by simp
      then show ?thesis by (intro exI)
    qed
  qed
qed

lemma stringify_row_malformed:
  assumes "length vals = length columns" and "i < length columns"
    and "DatabaseTypeName (columns ! i) = ''UNIQUEIDENTIFIER''"
    and "vals ! i = VBytes b" and "length b \<noteq> 16"
  shows "\<exists>j b'. j \<le> i \<and> vals ! j = VBytes b' \<and>
        DatabaseTypeName (columns ! j) = ''UNIQUEIDENTIFIER'' \<and> length b' \<noteq> 16 \<and>
        stringify_row env c columns vals = Inl (InvalidUUID (length b'))"
proof -
  have "i < length (zip columns vals)" "zip columns vals ! i = (columns ! i, VBytes b)"
    using assms by simp_all
  from stringify_cells_malformed [OF this assms(3,5), of env c] obtain j b' where
    m: "j \<le> i \<and> snd (zip columns vals ! j) = VBytes b' \<and>
        DatabaseTypeName (fst (zip columns vals ! j)) = ''UNIQUEIDENTIFIER'' \<and> length b' \<noteq> 16 \<and>
        stringify_cells env c (zip columns vals) = Inl (InvalidUUID (length b'))"
    by (elim exE)
  then have "j < length columns" "j < length vals"
    using assms(1,2) by simp_all
  with m have "j \<le> i \<and> vals ! j = VBytes b' \<and>
        DatabaseTypeName (columns ! j) = ''UNIQUEIDENTIFIER'' \<and> length b' \<noteq> 16 \<and>
        stringify_row env c columns vals = Inl (InvalidUUID (length b'))"
    by (simp add: stringify_row_def)
  then show ?thesis by (intro exI)
qed

lemma Write_malformed:
  assumes cols: "ColumnTypes (rows w) = Inr columns"
    and hdr: "write_headers env (conv w) (resolve_comma (conv w)) columns (trace w) = (None, tr1)"
    and pend: "pending (rows w) = pre @ Inr vals # rest"
    and pre: "write_rows env (conv w) (resolve_comma (conv w)) columns pre tr1 (pp_state w) =
                (None, [], tr2, ps2)"
    and len: "length vals = length columns"
    and i: "i < length columns" "DatabaseTypeName (columns ! i) = ''UNIQUEIDENTIFIER''"
      "vals ! i = VBytes b" "length b \<noteq> 16"
  shows "\<exists>j b'. j \<le> i \<and> vals ! j = VBytes b' \<and>
        DatabaseTypeName (columns ! j) = ''UNIQUEIDENTIFIER'' \<and> length b' \<noteq> 16 \<and>
        Write env w =
          (Some (InvalidUUID (length b')),
           w\<lparr>rows := (rows w)\<lparr>pending := rest\<rparr>, trace := tr2, pp_state := ps2\<rparr>)"
proof -
  from stringify_row_malformed [OF len i, of env "conv w"] obtain j b' where
    m: "j \<le> i \<and> vals ! j = VBytes b' \<and>
        DatabaseTypeName (columns ! j) = ''UNIQUEIDENTIFIER'' \<and> length b' \<noteq> 16 \<and>
        stringify_row env (conv w) columns vals = Inl (InvalidUUID (length b'))"
    by (elim exE)
  then have "scan_and_stringify env (conv w) columns (Inr vals) = Inl (InvalidUUID (length b'))"
    using len by (simp add: scan_and_stringify_def rows_Scan_def)
  then have "write_rows env (conv w) (resolve_comma (conv w)) columns (Inr vals # rest) tr2 ps2 =
      (Some (InvalidUUID (length b')), rest, tr2, ps2)"
    by (rule write_rows_scan_fails)
  with write_rows_append [OF pre, of "Inr vals # rest"] pend
  have "write_rows env (conv w) (resolve_comma (conv w)) columns (pending (rows w)) tr1 (pp_state w) =
      (Some (InvalidUUID (length b')), rest, tr2, ps2)"
    by simp
  from Write_loop_aborts [OF cols hdr this] m
  have "j \<le> i \<and> vals ! j = VBytes b' \<and>
        DatabaseTypeName (columns ! j) = ''UNIQUEIDENTIFIER'' \<and> length b' \<noteq> 16 \<and>
        Write env w =
          (Some (InvalidUUID (length b')),
           w\<lparr>rows := (rows w)\<lparr>pending := rest\<rparr>, trace := tr2, pp_state := ps2\<rparr>)"
    by simp
  then show ?thesis by (intro exI)
qed

lemma alice_id_String: "uuid_String alice_id = ''01020304-0506-0708-090a-0b0c0d0e0fff''"
  unfolding alice_id_def by code_simp

text \<open>
  C4. In a \<^verbatim>\<open>UNIQUEIDENTIFIER\<close> column a byte sequence of 16 bytes is rendered as the
  hyphenated hexadecimal string of the identifier: 36 characters, hyphens at positions
  8, 13, 18 and 23, and the hexadecimal digits of the 16 bytes in order. Any other byte
  sequence, the empty one included, fails to decode. When a row of the cursor holds such
  a value, \<open>Write\<close> returns the decoding error of the row's first malformed identifier at
  once: the rows after it are not visited, and the trace is the one the rows before it
  left, so nothing of the failing row is handed to the writer (and nothing is flushed).
\<close>

theorem identifier_rendered_or_fatal:
  "(DatabaseTypeName col = ''UNIQUEIDENTIFIER'' \<and> length b = 16 \<longrightarrow>
      stringify_cell env c col (VBytes b) = Inr (uuid_String b) \<and>
      length (uuid_String b) = 36 \<and>
      uuid_String b ! 8 = CHR ''-'' \<and> uuid_String b ! 13 = CHR ''-'' \<and>
      uuid_String b ! 18 = CHR ''-'' \<and> uuid_String b ! 23 = CHR ''-'' \<and>
      filter (\<lambda>ch. ch \<noteq> CHR ''-'') (uuid_String b) = hex_Encode b) \<and>
   (DatabaseTypeName col = ''UNIQUEIDENTIFIER'' \<and> length b \<noteq> 16 \<longrightarrow>
      stringify_cell env c col (VBytes b) = Inl (InvalidUUID (length b))) \<and>
   (ColumnTypes (rows w) = Inr columns \<and>
    write_headers env (conv w) (resolve_comma (conv w)) columns (trace w) = (None, trh) \<and>
    pending (rows w) = pre @ Inr vals # rest \<and>
    write_rows env (conv w) (resolve_comma (conv w)) columns pre trh (pp_state w) =
      (None, [], trp, psp) \<and>
    length vals = length columns \<and> i < length columns \<and>
    DatabaseTypeName (columns ! i) = ''UNIQUEIDENTIFIER'' \<and>
    vals ! i = VBytes d \<and> length d \<noteq> 16 \<longrightarrow>
      (\<exists>j d'. j \<le> i \<and> vals ! j = VBytes d' \<and>
         DatabaseTypeName (columns ! j) = ''UNIQUEIDENTIFIER'' \<and> length d' \<noteq> 16 \<and>
         Write env w =
           (Some (InvalidUUID (length d')),
            w\<lparr>rows := (rows w)\<lparr>pending := rest\<rparr>, trace := trp, pp_state := psp\<rparr>)))"
proof (intro conjI impI)
  assume a: "DatabaseTypeName col = ''UNIQUEIDENTIFIER'' \<and> length b = 16"
  then show "stringify_cell env c col (VBytes b) = Inr (uuid_String b)"
    by (simp add: stringify_cell_uuid)
  from a show "length (uuid_String b) = 36"
    by (simp add: length_uuid_String)
  from a show "uuid_String b ! 8 = CHR ''-''" "uuid_String b ! 13 = CHR ''-''"
    "uuid_String b ! 18 = CHR ''-''" "uuid_String b ! 23 = CHR ''-''"
    by (simp_all add: uuid_String_hyphens)
  show "filter (\<lambda>ch. ch \<noteq> CHR ''-'') (uuid_String b) = hex_Encode b"
    by (rule uuid_String_hex)
next
  assume "DatabaseTypeName col = ''UNIQUEIDENTIFIER'' \<and> length b \<noteq> 16"
  then show "stringify_cell env c col (VBytes b) = Inl (InvalidUUID (length b))"
    by (simp add: stringify_cell_uuid)
next
  assume a: "ColumnTypes (rows w) = Inr columns \<and>
    write_headers env (conv w) (resolve_comma (conv w)) columns (trace w) = (None, trh) \<and>
    pending (rows w) = pre @ Inr vals # rest \<and>
    write_rows env (conv w) (resolve_comma (conv w)) columns pre trh (pp_state w) =
      (None, [], trp, psp) \<and>
    length vals = length columns \<and> i < length columns \<and>
    DatabaseTypeName (columns ! i) = ''UNIQUEIDENTIFIER'' \<and>
    vals ! i = VBytes d \<and> length d \<noteq> 16"
  show "\<exists>j d'. j \<le> i \<and> vals ! j = VBytes d' \<and>
         DatabaseTypeName (columns ! j) = ''UNIQUEIDENTIFIER'' \<and> length d' \<noteq> 16 \<and>
         Write env w =
           (Some (InvalidUUID (length d')),
            w\<lparr>rows := (rows w)\<lparr>pending := rest\<rparr>, trace := trp, pp_state := psp\<rparr>)"
  proof (rule Write_malformed)
    show "ColumnTypes (rows w) = Inr columns"
      and "write_headers env (conv w) (resolve_comma (conv w)) columns (trace w) = (None, trh)"
      and "pending (rows w) = pre @ Inr vals # rest"
      and "write_rows env (conv w) (resolve_comma (conv w)) columns pre trh (pp_state w) =
        (None, [], trp, psp)"
      and "length vals = length columns" and "i < length columns"
      and "DatabaseTypeName (columns ! i) = ''UNIQUEIDENTIFIER''"
      and "vals ! i = VBytes d" and "length d \<noteq> 16"
      using a by simp_all
  qed
qed

theorem identifier_rendered_or_fatal_witness:
  "stringify_cell test_env (NewConverter :: unit Converter) (id_columns ! 1) (VBytes alice_id) =
     Inr ''01020304-0506-0708-090a-0b0c0d0e0fff'' \<and>
   stringify_cell test_env (NewConverter :: unit Converter) (id_columns ! 1) (VBytes []) =
     Inl (InvalidUUID 0) \<and>
   (\<exists>j d'. j \<le> 1 \<and> bob_row ! j = VBytes d' \<and>
      DatabaseTypeName (id_columns ! j) = ''UNIQUEIDENTIFIER'' \<and> length d' \<noteq> 16 \<and>
      Write test_env id_world =
        (Some (InvalidUUID (length d')),
         id_world\<lparr>rows := (rows id_world)\<lparr>pending := [Inr [VString ''Carol'', VNil]]\<rparr>,
           trace := [EmitHeader [''name'', ''id''],
                     EmitRow [''Alice'', ''01020304-0506-0708-090a-0b0c0d0e0fff'']],
           pp_state := ()\<rparr>)) \<and>
   fst (Write test_env id_world) = Some (InvalidUUID 3)"
proof -
  have ty: "DatabaseTypeName (id_columns ! 1) = ''UNIQUEIDENTIFIER''"
    by (simp add: id_columns_def)
  have good: "length alice_id = 16"
    by (simp add: alice_id_def)
  have hdr: "write_headers test_env (conv id_world) (resolve_comma (conv id_world)) id_columns
      (trace id_world) = (None, [EmitHeader [''name'', ''id'']])"
    by (simp add: id_world_def id_columns_def loop_defs fixture_defs)
  have pre: "write_rows test_env (conv id_world) (resolve_comma (conv id_world)) id_columns
      [Inr [VString ''Alice'', VBytes alice_id]] [EmitHeader [''name'', ''id'']] (pp_state id_world) =
      (None, [], [EmitHeader [''name'', ''id''],
                  EmitRow [''Alice'', ''01020304-0506-0708-090a-0b0c0d0e0fff'']], ())"
    by (simp add: id_world_def id_columns_def loop_defs fixture_defs good alice_id_String)
  have run: "fst (Write test_env id_world) = Some (InvalidUUID 3)"
    by (simp add: id_world_def id_columns_def bob_row_def run_defs fixture_defs good alice_id_String)
  note T = identifier_rendered_or_fatal
    [where col = "id_columns ! 1" and env = test_env and c = "NewConverter :: unit Converter"
       and w = id_world and columns = id_columns and trh = "[EmitHeader [''name'', ''id'']]"
       and pre = "[Inr [VString ''Alice'', VBytes alice_id]]"
       and vals = "bob_row"
       and rest = "[Inr [VString ''Carol'', VNil]]"
       and trp = "[EmitHeader [''name'', ''id''],
                   EmitRow [''Alice'', ''01020304-0506-0708-090a-0b0c0d0e0fff'']]"
       and psp = "()" and i = 1 and d = "[1, 2, 3]"]
  have a: "stringify_cell test_env (NewConverter :: unit Converter) (id_columns ! 1)
      (VBytes alice_id) = Inr ''01020304-0506-0708-090a-0b0c0d0e0fff''"
    using T [where b = alice_id] ty good by (simp add: alice_id_String)
  have b: "stringify_cell test_env (NewConverter :: unit Converter) (id_columns ! 1) (VBytes []) =
      Inl (InvalidUUID 0)"
    using T [where b = "[]"] ty by simp
  have c: "\<exists>j d'. j \<le> 1 \<and> bob_row ! j = VBytes d' \<and>
      DatabaseTypeName (id_columns ! j) = ''UNIQUEIDENTIFIER'' \<and> length d' \<noteq> 16 \<and>
      Write test_env id_world =
        (Some (InvalidUUID (length d')),
         id_world\<lparr>rows := (rows id_world)\<lparr>pending := [Inr [VString ''Carol'', VNil]]\<rparr>,
           trace := [EmitHeader [''name'', ''id''],
                     EmitRow [''Alice'', ''01020304-0506-0708-090a-0b0c0d0e0fff'']],
           pp_state := ()\<rparr>)"
  proof -
    have H: "ColumnTypes (rows id_world) = Inr id_columns \<and>
      write_headers test_env (conv id_world) (resolve_comma (conv id_world)) id_columns
        (trace id_world) = (None, [EmitHeader [''name'', ''id'']]) \<and>
      pending (rows id_world) =
        [Inr [VString ''Alice'', VBytes alice_id]] @
        Inr bob_row # [Inr [VString ''Carol'', VNil]] \<and>
      write_rows test_env (conv id_world) (resolve_comma (conv id_world)) id_columns
        [Inr [VString ''Alice'', VBytes alice_id]] [EmitHeader [''name'', ''id'']]
        (pp_state id_world) =
        (None, [], [EmitHeader [''name'', ''id''],
                    EmitRow [''Alice'', ''01020304-0506-0708-090a-0b0c0d0e0fff'']], ()) \<and>
      length bob_row = length id_columns \<and>
      1 < length id_columns \<and>
      DatabaseTypeName (id_columns ! 1) = ''UNIQUEIDENTIFIER'' \<and>
      bob_row ! 1 = VBytes [1, 2, 3] \<and>
      length [1, 2, 3 :: byte] \<noteq> 16"
      using hdr pre ty by (simp add: id_world_def id_columns_def bob_row_def)
    show ?thesis
      by (rule T [where b = "[]", THEN conjunct2, THEN conjunct2, THEN mp, OF H])
  qed
  from a b c run show ?thesis
    by (intro conjI)
qed

subsection \<open>The post-processor\<close>

lemma x_out_run:
  "write_rows test_env (NewConverter\<lparr>rowPostProcessor := Some x_out\<rparr>) 0x2C people_columns
     three_people [] 0 =
   (None, [], [EmitRow [''Alice'', ''X'', ''X''], EmitRow [''Carol'', ''X'', ''X'']], 3)"
  by (simp add: run_defs fixture_defs three_people_def x_out_def)

lemma plain_run:
  "write_rows test_env (NewConverter :: nat Converter) 0x2C people_columns three_people [] 0 =
   (None, [],
    [EmitRow [''Alice'', ''1'', ''1973-11-29 21:33:09 +0000 UTC''],
     EmitRow [''Bob'', ''2'', []],
     EmitRow [''Carol'', ''3'', ''42'']], 0)"
proof -
  have "string_of_bytes [0x34, 0x32] = ''42''"
    by code_simp
  then show ?thesis
    by (simp add: run_defs fixture_defs three_people_def)
qed

lemma x_out_disk_full:
  "write_rows full_disk (NewConverter\<lparr>rowPostProcessor := Some x_out\<rparr>) 0x2C people_columns
     three_people [] 0 =
   (Some (ExtError ''disk full''), [],
    [EmitRow [''Alice'', ''X'', ''X''], EmitRow [''Carol'', ''X'', ''X'']], 3)"
  by (simp add: full_disk_def run_defs fixture_defs three_people_def x_out_def)

lemma x_out_closed_early:
  "write_rows test_env (NewConverter\<lparr>rowPostProcessor := Some x_out\<rparr>) 0x2C people_columns
     closed_early [] 0 =
   (Some (ExtError ''sql: Rows are closed''), [Inr alice], [EmitRow [''Alice'', ''X'', ''X'']], 1)"
  by (simp add: run_defs fixture_defs closed_early_def x_out_def)

lemma loop_outcome_srows:
  "loop_outcome env c comma columns pend tr ps r pend' tr' ps' n srows \<Longrightarrow> length srows = n"
proof -
  assume "loop_outcome env c comma columns pend tr ps r pend' tr' ps' n srows"
  then have "n \<le> length pend"
    and "map (scan_and_stringify env c columns) (take n pend) = map Inr srows"
    by (simp_all add: loop_outcome_def)
  then have "length (take n pend) = length srows"
    by (metis length_map)
  with \<open>n \<le> length pend\<close> show ?thesis by simp
qed

lemma post_process_all_skip:
  "post_process c columns ps row = ((False, row'), ps1) \<Longrightarrow>
     post_process_all c columns ps (row # srows) = post_process_all c columns ps1 srows"
  by (simp split: prod.splits)

lemma post_process_all_emit:
  "post_process c columns ps row = ((True, row'), ps1) \<Longrightarrow>
     post_process_all c columns ps (row # srows) =
       (row' # fst (post_process_all c columns ps1 srows),
        snd (post_process_all c columns ps1 srows))"
  by (simp split: prod.splits)

lemma loop_outcome_stop:
  assumes "scan_and_stringify env c columns x = Inl err"
  shows "loop_outcome env c comma columns (x # rest) tr ps (Some err) rest tr ps 0 []"
  using assms by (simp add: loop_outcome_def)

lemma loop_outcome_skip:
  assumes x: "scan_and_stringify env c columns x = Inr row"
    and pp: "post_process c columns ps row = ((False, row'), ps1)"
    and IH: "loop_outcome env c comma columns rest tr ps1 r pend' tr' ps' n srows"
  shows "loop_outcome env c comma columns (x # rest) tr ps r pend' tr' ps' (Suc n) (row # srows)"
proof -
  note len = loop_outcome_srows [OF IH]
  note out = post_process_all_skip [OF pp]
  show ?thesis
  proof (cases r)
    case None
    with IH x show ?thesis
      by (clarsimp simp add: loop_outcome_def out simp del: post_process_all.simps)
  next
    case (Some e)
    show ?thesis
    proof (cases srows)
      case Nil
      with IH Some x len show ?thesis
        by (simp add: loop_outcome_def out del: post_process_all.simps)
    next
      case (Cons s ss)
      then have bl: "butlast (row # srows) = row # butlast srows"
        by simp
      from IH Some x show ?thesis
        unfolding loop_outcome_def bl out
        by (auto simp del: post_process_all.simps butlast.simps)
    qed
  qed
qed

lemma loop_outcome_write_fails:
  assumes x: "scan_and_stringify env c columns x = Inr row"
    and pp: "post_process c columns ps row = ((True, row'), ps1)"
    and w: "csv_Write_err env comma tr row' = Some err"
  shows "loop_outcome env c comma columns (x # rest) tr ps (Some err) rest
           (tr @ [EmitRow row']) ps1 (Suc 0) [row]"
  using x w by (simp add: loop_outcome_def post_process_all_emit [OF pp] del: post_process_all.simps(2))

lemma loop_outcome_emit:
  assumes x: "scan_and_stringify env c columns x = Inr row"
    and pp: "post_process c columns ps row = ((True, row'), ps1)"
    and w: "csv_Write_err env comma tr row' = None"
    and IH: "loop_outcome env c comma columns rest (tr @ [EmitRow row']) ps1 r pend' tr' ps' n srows"
  shows "loop_outcome env c comma columns (x # rest) tr ps r pend' tr' ps' (Suc n) (row # srows)"
proof -
  note len = loop_outcome_srows [OF IH]
  note out = post_process_all_emit [OF pp]
  show ?thesis
  proof (cases r)
    case None
    with IH x w show ?thesis
      by (clarsimp simp add: loop_outcome_def out simp del: post_process_all.simps)
  next
    case (Some e)
    show ?thesis
    proof (cases srows)
      case Nil
      with IH Some x w len show ?thesis
        by (simp add: loop_outcome_def out del: post_process_all.simps)
    next
      case (Cons s ss)
      then have bl: "butlast (row # srows) = row # butlast srows"
        by simp
      have bo: "butlast (row' # out) = row' # butlast out" "last (row' # out) = last out"
        if "out \<noteq> []" for out :: "string list list"
        using that by simp_all
      from IH Some x w show ?thesis
        unfolding loop_outcome_def bl out
        by (auto simp add: bo simp del: post_process_all.simps butlast.simps last.simps)
    qed
  qed
qed

lemma write_rows_outcome:
  "write_rows env c comma columns pend tr ps = (r, pend', tr', ps') \<Longrightarrow>
     \<exists>n srows. loop_outcome env c comma columns pend tr ps r pend' tr' ps' n srows"
proof (induction pend arbitrary: tr ps)
  case Nil
  then have "loop_outcome env c comma columns [] tr ps r pend' tr' ps' 0 []"
    by (auto simp: loop_outcome_def)
  then show ?case by (intro exI)
next
  case (Cons x rest)
  show ?case
  proof (cases "scan_and_stringify env c columns x")
    case (Inl err)
    with Cons.prems have "r = Some err" "pend' = rest" "tr' = tr" "ps' = ps"
      by (simp_all add: write_rows_scan_fails)
    with loop_outcome_stop [OF Inl, of comma rest tr ps] show ?thesis
      by (intro exI) simp
  next
    case (Inr row)
    obtain emit row' ps1 where pp: "post_process c columns ps row = ((emit, row'), ps1)"
      by (metis surj_pair)
    show ?thesis
    proof (cases emit)
      case False
      with pp have ppF: "post_process c columns ps row = ((False, row'), ps1)"
        by simp
      from False Inr pp Cons.prems
      have "write_rows env c comma columns rest tr ps1 = (r, pend', tr', ps')"
        by (simp add: write_rows_skip)
      from Cons.IH [OF this] obtain n srows where
        "loop_outcome env c comma columns rest tr ps1 r pend' tr' ps' n srows"
        by (elim exE)
      from loop_outcome_skip [OF Inr ppF this] show ?thesis
        by (intro exI)
    next
      case True
      with pp have ppT: "post_process c columns ps row = ((True, row'), ps1)"
        by simp
      show ?thesis
      proof (cases "csv_Write_err env comma tr row'")
        case (Some err)
        with Inr pp True Cons.prems
        have "r = Some err" "pend' = rest" "tr' = tr @ [EmitRow row']" "ps' = ps1"
          by (simp_all add: write_rows_emit_fails)
        with loop_outcome_write_fails [OF Inr ppT Some, of rest] show ?thesis
          by (intro exI) simp
      next
        case None
        with Inr pp True Cons.prems
        have "write_rows env c comma columns rest (tr @ [EmitRow row']) ps1 = (r, pend', tr', ps')"
          by (simp add: write_rows_emit)
        from Cons.IH [OF this] obtain n srows where
          "loop_outcome env c comma columns rest (tr @ [EmitRow row']) ps1 r pend' tr' ps' n srows"
          by (elim exE)
        from loop_outcome_emit [OF Inr ppT None this] show ?thesis
          by (intro exI)
      qed
    qed
  qed
qed

text \<open>
  C5. However the row loop ends, it has stringified the first \<open>n\<close> rows of the cursor, and
  the records \<open>out\<close> it handed to the writer are what the post-processor made of exactly
  these rows: with a post-processor installed, the processor has been called once on each
  of them, in order and after stringification (its state is the one
  \<open>run_post_processor\<close> computes), and \<open>out\<close> is the rows it returned with \<open>True\<close>, in
  order, a row answered with \<open>False\<close> leaving no trace; without one, \<open>out\<close> is the
  stringified rows themselves. The number \<open>n\<close> is pinned by how the loop ended. With no
  error it is all rows, the cursor is exhausted and the writer accepted every record. With
  an error, either row \<open>n\<close> is the first that fails to scan or decode, with that error,
  the cursor stands behind it and every record was accepted (so it was not post-processed
  and nothing of it was written); or the last of the \<open>n\<close> rows was answered \<open>True\<close>, the
  writer refused its record with that error after accepting all the records before it, and
  the cursor stands behind that row.
\<close>

theorem post_processor_once_per_row:
  assumes "write_rows env c comma columns pend tr ps = (r, pend', tr', ps')"
  shows "\<exists>n srows out. n \<le> length pend \<and>
     map (scan_and_stringify env c columns) (take n pend) = map Inr srows \<and>
     tr' = tr @ map EmitRow out \<and>
     (case rowPostProcessor c of
        None \<Rightarrow> out = srows \<and> ps' = ps
      | Some f \<Rightarrow>
          out = fst (run_post_processor f columns ps srows) \<and>
          ps' = snd (run_post_processor f columns ps srows)) \<and>
     (case r of
        None \<Rightarrow> n = length pend \<and> pend' = [] \<and> writes_accepted env comma tr out
      | Some e \<Rightarrow>
          (n < length pend \<and> scan_and_stringify env c columns (pend ! n) = Inl e \<and>
           pend' = drop (Suc n) pend \<and> writes_accepted env comma tr out) \<or>
          (0 < n \<and> pend' = drop n pend \<and> out \<noteq> [] \<and>
           (case rowPostProcessor c of
              None \<Rightarrow> butlast out = butlast srows
            | Some f \<Rightarrow> butlast out = fst (run_post_processor f columns ps (butlast srows))) \<and>
           writes_accepted env comma tr (butlast out) \<and>
           csv_Write_err env comma (tr @ map EmitRow (butlast out)) (last out) = Some e))"
proof -
  from write_rows_outcome [OF assms] obtain n srows where
    lo: "loop_outcome env c comma columns pend tr ps r pend' tr' ps' n srows"
    by (elim exE)
  show ?thesis
  proof (cases "rowPostProcessor c")
    case None
    note pa = post_process_all_None [OF None]
    from lo show ?thesis
      unfolding loop_outcome_def pa
      by (intro exI [of _ n] exI [of _ srows]) (auto simp: None split: option.splits)
  next
    case (Some f)
    note pa = post_process_all_Some [OF Some]
    from lo show ?thesis
      unfolding loop_outcome_def pa
      by (intro exI [of _ n] exI [of _ srows]
            exI [of _ "fst (run_post_processor f columns ps srows)"])
         (auto simp: Some split: option.splits)
  qed
qed

theorem post_processor_once_per_row_witness:
  "(\<exists>n srows out. n \<le> length three_people \<and>
     map (scan_and_stringify test_env (NewConverter\<lparr>rowPostProcessor := Some x_out\<rparr>)
            people_columns) (take n three_people) = map Inr srows \<and>
     [EmitRow [''Alice'', ''X'', ''X''], EmitRow [''Carol'', ''X'', ''X'']] = map EmitRow out \<and>
     out = fst (run_post_processor x_out people_columns 0 srows) \<and>
     3 = snd (run_post_processor x_out people_columns 0 srows) \<and>
     n = length three_people \<and> writes_accepted test_env 0x2C [] out) \<and>
   (\<exists>n srows out. n \<le> length three_people \<and>
     map (scan_and_stringify test_env (NewConverter :: nat Converter) people_columns)
       (take n three_people) = map Inr srows \<and>
     [EmitRow [''Alice'', ''1'', ''1973-11-29 21:33:09 +0000 UTC''],
      EmitRow [''Bob'', ''2'', []],
      EmitRow [''Carol'', ''3'', ''42'']] = map EmitRow out \<and>
     out = srows \<and>
     n = length three_people \<and> writes_accepted test_env 0x2C [] out) \<and>
   (\<exists>n srows out. n \<le> length three_people \<and>
     map (scan_and_stringify full_disk (NewConverter\<lparr>rowPostProcessor := Some x_out\<rparr>)
            people_columns) (take n three_people) = map Inr srows \<and>
     [EmitRow [''Alice'', ''X'', ''X''], EmitRow [''Carol'', ''X'', ''X'']] = map EmitRow out \<and>
     out = fst (run_post_processor x_out people_columns 0 srows) \<and>
     3 = snd (run_post_processor x_out people_columns 0 srows) \<and>
     ((n < length three_people \<and>
       scan_and_stringify full_disk (NewConverter\<lparr>rowPostProcessor := Some x_out\<rparr>)
         people_columns (three_people ! n) = Inl (ExtError ''disk full'') \<and>
       [] = drop (Suc n) three_people \<and> writes_accepted full_disk 0x2C [] out) \<or>
      (0 < n \<and> [] = drop n three_people \<and> out \<noteq> [] \<and>
       butlast out = fst (run_post_processor x_out people_columns 0 (butlast srows)) \<and>
       writes_accepted full_disk 0x2C [] (butlast out) \<and>
       csv_Write_err full_disk 0x2C (map EmitRow (butlast out)) (last out) =
         Some (ExtError ''disk full'')))) \<and>
   (\<exists>n srows out. n \<le> length closed_early \<and>
     map (scan_and_stringify test_env (NewConverter\<lparr>rowPostProcessor := Some x_out\<rparr>)
            people_columns) (take n closed_early) = map Inr srows \<and>
     [EmitRow [''Alice'', ''X'', ''X'']] = map EmitRow out \<and>
     out = fst (run_post_processor x_out people_columns 0 srows) \<and>
     1 = snd (run_post_processor x_out people_columns 0 srows) \<and>
     ((n < length closed_early \<and>
       scan_and_stringify test_env (NewConverter\<lparr>rowPostProcessor := Some x_out\<rparr>)
         people_columns (closed_early ! n) = Inl (ExtError ''sql: Rows are closed'') \<and>
       [Inr alice] = drop (Suc n) closed_early \<and> writes_accepted test_env 0x2C [] out) \<or>
      (0 < n \<and> [Inr alice] = drop n closed_early \<and> out \<noteq> [] \<and>
       butlast out = fst (run_post_processor x_out people_columns 0 (butlast srows)) \<and>
       writes_accepted test_env 0x2C [] (butlast out) \<and>
       csv_Write_err test_env 0x2C (map EmitRow (butlast out)) (last out) =
         Some (ExtError ''sql: Rows are closed''))))"
proof -
  have c: "rowPostProcessor (NewConverter\<lparr>rowPostProcessor := Some x_out\<rparr>) = Some x_out"
    "rowPostProcessor (NewConverter :: nat Converter) = None"
    by (simp_all add: NewConverter_def)
  from post_processor_once_per_row [OF x_out_run] post_processor_once_per_row [OF plain_run]
    post_processor_once_per_row [OF x_out_disk_full]
    post_processor_once_per_row [OF x_out_closed_early]
  show ?thesis
    unfolding c by simp
qed

subsection \<open>Flushing\<close>

lemma no_flush_in_rows: "\<not> list_ex is_flush (map EmitRow rs)"
  by (induction rs) simp_all

lemma write_headers_no_flush:
  "write_headers env c comma columns tr = (r, tr1) \<Longrightarrow>
     length tr \<le> length tr1 \<and> \<not> list_ex is_flush (drop (length tr) tr1)"
  by (drule write_headers_trace) simp

lemma no_flush_through:
  assumes "write_headers env c comma columns tr = (r1, tr1)"
    and "write_rows env c comma columns pend tr1 ps = (r2, pend', tr2, ps')"
  shows "\<not> list_ex is_flush (drop (length tr) tr2)"
proof -
  from write_headers_trace [OF assms(1)] obtain hs where t1: "tr1 = tr @ hs"
    and hs: "\<not> list_ex is_flush hs"
    by (cases "WriteHeaders c") simp_all
  from write_rows_events [OF assms(2)] obtain rs where
    both: "tr2 = tr1 @ map EmitRow rs \<and>
      (rowPostProcessor c = None \<longrightarrow> (\<forall>row \<in> set rs. length row = length columns))"
    by (elim exE)
  then have "tr2 = tr1 @ map EmitRow rs"
    by (rule conjunct1)
  with t1 hs show ?thesis
    by (simp add: no_flush_in_rows)
qed

text \<open>
  C7, as stated, fails: after a row that fails to scan \<open>Write\<close> returns the error and
  the records written so far are not flushed.
\<close>

theorem flush_missing_after_scan_error:
  "fst (Write test_env scan_fails) = Some (ExtError ''sql: Rows are closed'') \<and>
   trace (snd (Write test_env scan_fails)) =
     [EmitHeader [''name'', ''age'', ''bdate''],
      EmitRow [''Alice'', ''1'', ''1973-11-29 21:33:09 +0000 UTC'']] \<and>
   \<not> list_ex is_flush (trace (snd (Write test_env scan_fails)))"
  by (simp add: scan_fails_def run_defs fixture_defs)

text \<open>
  C7, amended. \<open>Write\<close> flushes on one path only, the one where the row loop runs to
  exhaustion: there the flush is its last call, and the result is what \<^verbatim>\<open>rows.Err()\<close>
  answers, whatever the flush left in the writer. On the paths that return a metadata,
  header-write, row-scan, identifier-decoding or row-emission error, the call adds no
  flush to the trace.
\<close>

theorem flush_only_after_exhaustion:
  "(case ColumnTypes (rows w) of
      Inl e \<Rightarrow> Write env w = (Some e, w)
    | Inr columns \<Rightarrow>
        (case write_headers env (conv w) (resolve_comma (conv w)) columns (trace w) of
           (Some e, tr1) \<Rightarrow>
             fst (Write env w) = Some e \<and> trace (snd (Write env w)) = tr1 \<and>
             \<not> list_ex is_flush (new_events w (snd (Write env w)))
         | (None, tr1) \<Rightarrow>
             (case write_rows env (conv w) (resolve_comma (conv w)) columns
                     (pending (rows w)) tr1 (pp_state w) of
                (Some e, pend, tr2, ps) \<Rightarrow>
                  fst (Write env w) = Some e \<and> trace (snd (Write env w)) = tr2 \<and>
                  \<not> list_ex is_flush (new_events w (snd (Write env w)))
              | (None, pend, tr2, ps) \<Rightarrow>
                  fst (Write env w) = Err (rows w) \<and>
                  trace (snd (Write env w)) =
                    tr2 @ [Flush (csv_Flush_err env (resolve_comma (conv w)) tr2)] \<and>
                  \<not> list_ex is_flush (drop (length (trace w)) tr2))))"
proof (cases "ColumnTypes (rows w)")
  case (Inl e)
  then show ?thesis by (simp add: Write_metadata_fails)
next
  case (Inr columns)
  obtain r1 tr1 where
    h: "write_headers env (conv w) (resolve_comma (conv w)) columns (trace w) = (r1, tr1)"
    by (rule prod.exhaust)
  obtain r2 pend tr2 ps where
    l: "write_rows env (conv w) (resolve_comma (conv w)) columns (pending (rows w)) tr1
          (pp_state w) = (r2, pend, tr2, ps)"
    by (rule prod_cases4)
  note nf1 = write_headers_no_flush [OF h]
  note nf2 = no_flush_through [OF h l]
  show ?thesis
  proof (cases r1)
    case (Some e)
    with Inr h nf1 show ?thesis
      by (simp add: Write_header_fails new_events_def)
  next
    case None
    show ?thesis
    proof (cases r2)
      case (Some e)
      with Inr h None l nf2 show ?thesis
        by (simp add: Write_loop_aborts new_events_def)
    next
      case None2: None
      with Inr h None l nf2 show ?thesis
        by (simp add: Write_loop_exhausted)
    qed
  qed
qed

theorem flush_only_after_exhaustion_witness:
  "fst (Write (test_env\<lparr>csv_Flush_err := \<lambda>comma tr. Some (ExtError ''disk full'')\<rparr>)
          (test_world ())) = None \<and>
   trace (snd (Write (test_env\<lparr>csv_Flush_err := \<lambda>comma tr. Some (ExtError ''disk full'')\<rparr>)
          (test_world ()))) =
     [EmitHeader [''name'', ''age'', ''bdate''],
      EmitRow [''Alice'', ''1'', ''1973-11-29 21:33:09 +0000 UTC''],
      Flush (Some (ExtError ''disk full''))]"
  using flush_only_after_exhaustion
    [where w = "test_world ()"
       and env = "test_env\<lparr>csv_Flush_err := \<lambda>comma tr. Some (ExtError ''disk full'')\<rparr>"]
  by (simp add: loop_defs fixture_defs)

subsection \<open>Files\<close>

lemma no_file_event_in_rows: "\<not> list_ex is_file_event (map EmitRow rs)"
  by (induction rs) simp_all

lemma Write_no_file_events:
  "\<exists>evs. trace (snd (Write env w)) = trace w @ evs \<and> \<not> list_ex is_file_event evs"
proof (cases "ColumnTypes (rows w)")
  case (Inl e)
  then have "trace (snd (Write env w)) = trace w @ [] \<and> \<not> list_ex is_file_event []"
    by (simp add: Write_metadata_fails)
  then show ?thesis by (rule exI)
next
  case (Inr columns)
  from Write_trace [OF Inr, of env] obtain rs fl where
    all: "trace (snd (Write env w)) =
           trace w @ (if WriteHeaders (conv w)
                      then [EmitHeader (resolve_headers (conv w) columns)] else []) @
           map EmitRow rs @ fl \<and>
           (fl = [] \<or> fl = [Flush (csv_Flush_err env (resolve_comma (conv w))
              (trace w @ (if WriteHeaders (conv w)
                      then [EmitHeader (resolve_headers (conv w) columns)] else []) @
               map EmitRow rs))]) \<and>
           (rowPostProcessor (conv w) = None \<longrightarrow> (\<forall>row \<in> set rs. length row = length columns))"
    by (elim exE)
  define hs where "hs = (if WriteHeaders (conv w)
                      then [EmitHeader (resolve_headers (conv w) columns)] else [])"
  from all have tr: "trace (snd (Write env w)) = trace w @ (hs @ map EmitRow rs @ fl)"
    unfolding hs_def by (rule conjunct1)
  from all have "fl = [] \<or> (\<exists>e. fl = [Flush e])"
    by (auto dest: conjunct1 [OF conjunct2])
  then have "\<not> list_ex is_file_event fl"
    by auto
  moreover have "\<not> list_ex is_file_event hs"
    by (simp add: hs_def)
  ultimately have "\<not> list_ex is_file_event (hs @ map EmitRow rs @ fl)"
    by (simp add: no_file_event_in_rows)
  with tr have "trace (snd (Write env w)) = trace w @ (hs @ map EmitRow rs @ fl) \<and>
      \<not> list_ex is_file_event (hs @ map EmitRow rs @ fl)"
    by (rule conjI)
  then show ?thesis by (rule exI)
qed

text \<open>
  C8. When \<^verbatim>\<open>os.Create\<close> fails, \<open>WriteFile\<close> returns its error and nothing else
  happens: the cursor and the trace are untouched. When it succeeds, the file is closed
  exactly once, as the last call, on every path; the result is the error of \<open>Write\<close> if
  there is one, whatever \<^verbatim>\<open>Close\<close> answers, and the answer of \<^verbatim>\<open>Close\<close> otherwise.
\<close>

theorem file_closed_on_every_path:
  "(case os_Create_err env csvFileName (trace w) of
      Some e \<Rightarrow> WriteFile env csvFileName w = (Some e, w)
    | None \<Rightarrow>
        (\<exists>evs cl.
           trace (snd (WriteFile env csvFileName w)) =
             trace w @ CreateFile csvFileName # evs @ [CloseFile csvFileName cl] \<and>
           \<not> list_ex is_file_event evs \<and>
           cl = file_Close_err env csvFileName (trace w @ CreateFile csvFileName # evs) \<and>
           fst (WriteFile env csvFileName w) =
             (case fst (Write env (w\<lparr>trace := trace w @ [CreateFile csvFileName]\<rparr>)) of
                Some e \<Rightarrow> Some e
              | None \<Rightarrow> cl)))"
proof (cases "os_Create_err env csvFileName (trace w)")
  case (Some e)
  then show ?thesis by (simp add: WriteFile_def)
next
  case None
  define w1 where "w1 = w\<lparr>trace := trace w @ [CreateFile csvFileName]\<rparr>"
  obtain r w2 where W: "Write env w1 = (r, w2)"
    by (rule prod.exhaust)
  from Write_no_file_events [of env w1] obtain evs where
    both: "trace (snd (Write env w1)) = trace w1 @ evs \<and> \<not> list_ex is_file_event evs"
    by (elim exE)
  then have "trace w2 = trace w1 @ evs"
    by (simp add: W)
  then have t2: "trace w2 = trace w @ CreateFile csvFileName # evs"
    by (simp add: w1_def)
  from both have nf: "\<not> list_ex is_file_event evs"
    by (rule conjunct2)
  define cl where "cl = file_Close_err env csvFileName (trace w @ CreateFile csvFileName # evs)"
  have F: "WriteFile env csvFileName w =
      ((case r of Some e \<Rightarrow> Some e | None \<Rightarrow> cl),
       w2\<lparr>trace := trace w2 @ [CloseFile csvFileName cl]\<rparr>)"
    using None W t2 by (cases r) (simp_all add: WriteFile_def w1_def [symmetric] cl_def)
  have "trace (snd (WriteFile env csvFileName w)) =
             trace w @ CreateFile csvFileName # evs @ [CloseFile csvFileName cl] \<and>
           \<not> list_ex is_file_event evs \<and>
           cl = file_Close_err env csvFileName (trace w @ CreateFile csvFileName # evs) \<and>
           fst (WriteFile env csvFileName w) =
             (case fst (Write env (w\<lparr>trace := trace w @ [CreateFile csvFileName]\<rparr>)) of
                Some e \<Rightarrow> Some e
              | None \<Rightarrow> cl)"
    using nf t2 by (simp add: F W [unfolded w1_def] cl_def)
  then have "\<exists>evs cl.
           trace (snd (WriteFile env csvFileName w)) =
             trace w @ CreateFile csvFileName # evs @ [CloseFile csvFileName cl] \<and>
           \<not> list_ex is_file_event evs \<and>
           cl = file_Close_err env csvFileName (trace w @ CreateFile csvFileName # evs) \<and>
           fst (WriteFile env csvFileName w) =
             (case fst (Write env (w\<lparr>trace := trace w @ [CreateFile csvFileName]\<rparr>)) of
                Some e \<Rightarrow> Some e
              | None \<Rightarrow> cl)"
    by (intro exI)
  with None show ?thesis by simp
qed

theorem file_closed_on_every_path_witness:
  "WriteFile flaky_files ''/proc/out.csv'' (test_world ()) =
     (Some (ExtError ''permission denied''), test_world ()) \<and>
   fst (WriteFile flaky_files ''out.csv'' scan_fails) = Some (ExtError ''sql: Rows are closed'') \<and>
   last (trace (snd (WriteFile flaky_files ''out.csv'' scan_fails))) =
     CloseFile ''out.csv'' (Some (ExtError ''close failed'')) \<and>
   fst (WriteFile flaky_files ''out.csv'' (test_world ())) = Some (ExtError ''close failed'') \<and>
   fst (WriteFile test_env ''out.csv'' (test_world ())) = None \<and>
   last (trace (snd (WriteFile test_env ''out.csv'' (test_world ())))) = CloseFile ''out.csv'' None"
proof -
  have w1: "fst (Write flaky_files
      (scan_fails\<lparr>trace := trace scan_fails @ [CreateFile ''out.csv'']\<rparr>)) =
      Some (ExtError ''sql: Rows are closed'')"
    by (simp add: flaky_files_def scan_fails_def run_defs fixture_defs)
  have w2: "fst (Write flaky_files
      ((test_world ())\<lparr>trace := trace (test_world ()) @ [CreateFile ''out.csv'']\<rparr>)) = None"
    by (simp add: flaky_files_def run_defs fixture_defs)
  have w3: "fst (Write test_env
      ((test_world ())\<lparr>trace := trace (test_world ()) @ [CreateFile ''out.csv'']\<rparr>)) = None"
    by (simp add: run_defs fixture_defs)
  have a: "WriteFile flaky_files ''/proc/out.csv'' (test_world ()) =
     (Some (ExtError ''permission denied''), test_world ())"
    using file_closed_on_every_path
      [where env = flaky_files and csvFileName = "''/proc/out.csv''" and w = "test_world ()"]
    by (simp add: flaky_files_def)
  from file_closed_on_every_path
      [where env = flaky_files and csvFileName = "''out.csv''" and w = scan_fails]
  have b: "fst (WriteFile flaky_files ''out.csv'' scan_fails) =
      Some (ExtError ''sql: Rows are closed'') \<and>
    last (trace (snd (WriteFile flaky_files ''out.csv'' scan_fails))) =
      CloseFile ''out.csv'' (Some (ExtError ''close failed''))"
    unfolding w1 by (auto simp: flaky_files_def)
  from file_closed_on_every_path
      [where env = flaky_files and csvFileName = "''out.csv''" and w = "test_world ()"]
  have c: "fst (WriteFile flaky_files ''out.csv'' (test_world ())) =
      Some (ExtError ''close failed'')"
    unfolding w2 by (auto simp: flaky_files_def)
  from file_closed_on_every_path
      [where env = test_env and csvFileName = "''out.csv''" and w = "test_world ()"]
  have d: "fst (WriteFile test_env ''out.csv'' (test_world ())) = None \<and>
      last (trace (snd (WriteFile test_env ''out.csv'' (test_world ())))) =
        CloseFile ''out.csv'' None"
    unfolding w3 by (auto simp: test_env_def)
  from a b c d show ?thesis
    by (intro conjI) (erule conjunct1 conjunct2 | assumption)+
qed

subsection \<open>Field counts\<close>

text \<open>
  C9, as stated, fails: with an override of two names for three columns, and no
  post-processor, the header record has two fields and the data record three.
\<close>

theorem override_of_other_length:
  "rowPostProcessor (conv two_headers) = None \<and>
   trace (snd (Write test_env two_headers)) =
     [EmitHeader [''Name'', ''Age''],
      EmitRow [''Alice'', ''1'', ''1973-11-29 21:33:09 +0000 UTC''],
      Flush None] \<and>
   map field_count (trace (snd (Write test_env two_headers))) = [Some 2, Some 3, None]"
  by (simp add: two_headers_def run_defs fixture_defs)

text \<open>
  C9, amended. Without a post-processor every data record has as many fields as there
  are columns; the header record has that number too when it is derived from the
  metadata, and the length of \<^verbatim>\<open>Headers\<close>, unchecked, when that is set.
\<close>

theorem field_counts:
  assumes "ColumnTypes (rows w) = Inr columns" and "rowPostProcessor (conv w) = None"
  shows "\<exists>evs. trace (snd (Write env w)) = trace w @ evs \<and>
     list_all (fields_ok (if Headers (conv w) = [] then length columns
                          else length (Headers (conv w))) (length columns)) evs"
proof -
  from Write_trace [OF assms(1), of env] obtain rs fl where
    all: "trace (snd (Write env w)) =
           trace w @ (if WriteHeaders (conv w)
                      then [EmitHeader (resolve_headers (conv w) columns)] else []) @
           map EmitRow rs @ fl \<and>
           (fl = [] \<or> fl = [Flush (csv_Flush_err env (resolve_comma (conv w))
              (trace w @ (if WriteHeaders (conv w)
                      then [EmitHeader (resolve_headers (conv w) columns)] else []) @
               map EmitRow rs))]) \<and>
           (rowPostProcessor (conv w) = None \<longrightarrow> (\<forall>row \<in> set rs. length row = length columns))"
    by (elim exE)
  define hs where "hs = (if WriteHeaders (conv w)
                      then [EmitHeader (resolve_headers (conv w) columns)] else [])"
  define ok where "ok = fields_ok (if Headers (conv w) = [] then length columns
                          else length (Headers (conv w))) (length columns)"
  from all have tr: "trace (snd (Write env w)) = trace w @ (hs @ map EmitRow rs @ fl)"
    unfolding hs_def by (rule conjunct1)
  from all assms(2) have rows_ok: "\<forall>row \<in> set rs. length row = length columns"
    by (rule_tac mp [OF conjunct2 [OF conjunct2]])
  from all have "fl = [] \<or> (\<exists>e. fl = [Flush e])"
    by (auto dest: conjunct1 [OF conjunct2])
  then have fl_ok: "list_all ok fl"
    by (auto simp: ok_def)
  have hs_ok: "list_all ok hs"
    by (simp add: hs_def ok_def resolve_headers_def)
  have rs_ok: "list_all ok (map EmitRow rs)"
    using rows_ok by (simp add: ok_def list_all_iff)
  have "list_all ok (hs @ map EmitRow rs @ fl)"
    using hs_ok rs_ok fl_ok by simp
  with tr have "trace (snd (Write env w)) = trace w @ (hs @ map EmitRow rs @ fl) \<and>
      list_all ok (hs @ map EmitRow rs @ fl)"
    by (rule conjI)
  then have "\<exists>evs. trace (snd (Write env w)) = trace w @ evs \<and> list_all ok evs"
    by (rule exI)
  then show ?thesis
    unfolding ok_def .
qed

theorem field_counts_witness:
  "list_all (fields_ok 3 3) (trace (snd (Write test_env (test_world ())))) \<and>
   list_all (fields_ok 2 3) (trace (snd (Write test_env two_headers)))"
proof -
  have c: "ColumnTypes (rows (test_world ())) = Inr people_columns"
    "ColumnTypes (rows two_headers) = Inr people_columns"
    by (simp_all add: two_headers_def fixture_defs)
  have p: "rowPostProcessor (conv (test_world ())) = None"
    "rowPostProcessor (conv two_headers) = None"
    by (simp_all add: two_headers_def fixture_defs)
  have h: "Headers (conv (test_world ())) = []" "Headers (conv two_headers) = [''Name'', ''Age'']"
    "trace (test_world ()) = []" "trace two_headers = []" "length people_columns = 3"
    by (simp_all add: two_headers_def fixture_defs)
  from field_counts [OF c(1) p(1), of test_env] field_counts [OF c(2) p(2), of test_env]
  show ?thesis
    by (simp add: h numeral_2_eq_2)
qed

end
